theory Spec2Isabelle
  imports Complex_Main "HOL-Library.Multiset"
begin

section \<open>TubeHoarder: the acquisition pipeline of \<^verbatim>\<open>main.py\<close>\<close>

text \<open>
  The development follows \<^verbatim>\<open>src/main.py\<close> (version 2.0.0). Pure code (string and path
  manipulation, the clamp of the worker count, the classification of the two digests)
  is translated as it is written. Every call that leaves the program (the fetch
  engine, the file system, the network, the clock) is a field of the record \<open>libs\<close>:
  a function that takes the state \<open>'x\<close> of the world outside the program and returns an
  answer, or a raised exception, and the next outside state. The theorems quantify over
  all such records, so they hold whatever the outside world answers.

  Strings are sequences of code points below 256. An exception is a value; only
  instances of Python's \<^verbatim>\<open>Exception\<close> are modelled, which is what \<^verbatim>\<open>except Exception\<close>
  catches.
\<close>

subsection \<open>Python values, exceptions and strings\<close>

datatype pyexc = PyExc string

fun str :: "pyexc \<Rightarrow> string" where
  "str (PyExc m) = m"

text \<open>A Python float: the value of \<^verbatim>\<open>float(s)\<close> may be infinite or not a number.\<close>

datatype pyfloat = Finite real | PosInf | NegInf | NaN

datatype payload = Num pyfloat | Str string

text \<open>An element of \<^verbatim>\<open>UIQueue\<close>: the tuple \<^verbatim>\<open>(url, tag, data)\<close>.\<close>

type_synonym event = "string \<times> string \<times> payload"

type_synonym dict = "string \<rightharpoonup> string"

type_synonym url = string

type_synonym path = string

text \<open>\<^verbatim>\<open>str.isspace\<close> on the code points below 256, which \<^verbatim>\<open>str.strip()\<close> removes.\<close>

definition isspace :: "char \<Rightarrow> bool" where
  "isspace c = (c \<in> set [CHR 0x09, CHR 0x0A, CHR 0x0B, CHR 0x0C, CHR 0x0D,
                            CHR 0x1C, CHR 0x1D, CHR 0x1E, CHR 0x1F, CHR 0x20,
                            CHR 0x85, CHR 0xA0])"

definition strip :: "string \<Rightarrow> string" where
  "strip s = rev (dropWhile isspace (rev (dropWhile isspace s)))"

text \<open>\<^verbatim>\<open>s.replace(c, "")\<close> for a one-character \<open>c\<close>, and \<^verbatim>\<open>s.replace(c, d)\<close>.\<close>

definition remove_char :: "char \<Rightarrow> string \<Rightarrow> string" where
  "remove_char c s = filter (\<lambda>x. x \<noteq> c) s"

definition replace_char :: "char \<Rightarrow> char \<Rightarrow> string \<Rightarrow> string" where
  "replace_char c d s = map (\<lambda>x. if x = c then d else x) s"

text \<open>\<^verbatim>\<open>s.split("\n")\<close>: the pieces between line feeds, always at least one piece.\<close>

fun split_lines :: "string \<Rightarrow> string list" where
  "split_lines [] = [[]]"
| "split_lines (c # cs) =
     (if c = CHR 0x0A then [] # split_lines cs
      else (case split_lines cs of
              [] \<Rightarrow> [[c]]
            | l # ls \<Rightarrow> (c # l) # ls))"

subsection \<open>\<^verbatim>\<open>os.path\<close> (the POSIX flavour)\<close>

definition path_join :: "string \<Rightarrow> string \<Rightarrow> string" where
  "path_join a b =
     (if b \<noteq> [] \<and> hd b = CHR ''/'' then b
      else if a = [] \<or> last a = CHR ''/'' then a @ b
      else a @ ''/'' @ b)"

text \<open>\<^verbatim>\<open>p[p.rfind('/') + 1:]\<close>: what follows the last slash.\<close>

definition basename :: "string \<Rightarrow> string" where
  "basename p = rev (takeWhile (\<lambda>c. c \<noteq> CHR ''/'') (rev p))"

definition dirname :: "string \<Rightarrow> string" where
  "dirname p =
     (let head = rev (dropWhile (\<lambda>c. c \<noteq> CHR ''/'') (rev p))
      in if head \<noteq> [] \<and> \<not> (\<forall>c \<in> set head. c = CHR ''/'')
         then rev (dropWhile (\<lambda>c. c = CHR ''/'') (rev head))
         else head)"

subsection \<open>The outside world\<close>

text \<open>The value of \<^verbatim>\<open>ffmpegPath()\<close>: a directory, \<^verbatim>\<open>None\<close> or \<^verbatim>\<open>False\<close>.\<close>

datatype ffmpeg_status = FDir string | FNone | FFalse

record ydlOpts =
  outtmpl :: string
  quiet :: bool
  no_warnings :: bool
  format :: string
  merge_output_format :: "string option"
  ffmpeg_location :: "string option"

text \<open>
  The dictionary \<^verbatim>\<open>extract_info\<close> returns, as far as the program reads it: a field is
  \<open>None\<close> when the key is absent.
\<close>

record info =
  title :: "string option"
  ident :: "string option"
  thumbnail :: "string option"

record 'x libs =
  float_of :: "string \<Rightarrow> pyexc + pyfloat"
  int_of :: "string \<Rightarrow> pyexc + int"
  utcnow :: "'x \<Rightarrow> string \<times> 'x"
  getBasePath :: "'x \<Rightarrow> string"
  path_exists :: "string \<Rightarrow> 'x \<Rightarrow> bool"
  which :: "string \<Rightarrow> 'x \<Rightarrow> bool"
  extract_info :: "ydlOpts \<Rightarrow> string \<Rightarrow> 'x \<Rightarrow> (dict list \<times> (pyexc + info)) \<times> 'x"
  prepare_filename :: "ydlOpts \<Rightarrow> info \<Rightarrow> 'x \<Rightarrow> pyexc + string"
  urlopen_read :: "string \<Rightarrow> 'x \<Rightarrow> (pyexc + string) \<times> 'x"
  decode :: "string \<Rightarrow> pyexc + string"
  write_bytes :: "string \<Rightarrow> string \<Rightarrow> 'x \<Rightarrow> pyexc option \<times> 'x"
  read_bytes :: "string \<Rightarrow> 'x \<Rightarrow> (pyexc + string) \<times> 'x"
  sha256_hexdigest :: "string list \<Rightarrow> string"
  move :: "string \<Rightarrow> string \<Rightarrow> 'x \<Rightarrow> pyexc option \<times> 'x"
  relpath :: "string \<Rightarrow> string \<Rightarrow> 'x \<Rightarrow> pyexc + string"
  open_text :: "string \<Rightarrow> bool \<Rightarrow> 'x \<Rightarrow> pyexc option \<times> 'x"
  makedirs :: "string \<Rightarrow> 'x \<Rightarrow> (pyexc option \<times> string list) \<times> 'x"

subsection \<open>The progress hook\<close>

text \<open>
  \<^verbatim>\<open>hook(d)\<close> inside \<^verbatim>\<open>processVideo\<close>, acting on the queue. \<^verbatim>\<open>d.get\<close> does not raise,
  \<^verbatim>\<open>float\<close> may and is guarded by \<^verbatim>\<open>try ... except Exception\<close>, and \<^verbatim>\<open>put\<close> on the unbounded
  queue does not raise. The values of the engine's dictionary are strings.
\<close>

definition hook :: "'x libs \<Rightarrow> string \<Rightarrow> dict \<Rightarrow> event list \<Rightarrow> pyexc + event list" where
  "hook lib url d q =
     (if d ''status'' = Some ''downloading'' then
        (let percent = strip (remove_char CHR ''%''
                         (case d ''_percent_str'' of None \<Rightarrow> ''0%'' | Some s \<Rightarrow> s));
             percent' = (case float_of lib percent of
                           Inr v \<Rightarrow> v
                         | Inl e \<Rightarrow> Finite 0)
         in Inr (q @ [(url, ''PROGRESS'', Num percent')]))
      else if d ''status'' = Some ''finished'' then
        Inr (q @ [(url, ''MERGING'', Num (Finite 99))])
      else Inr q)"

subsection \<open>Program state\<close>

text \<open>
  What the program itself writes and owns. \<open>files\<close> are the text files it writes (the
  report), each as the list of the texts written to it in order, one per call of
  \<^verbatim>\<open>write\<close>; the content of the file is their concatenation. \<open>settings\<close> is the
  dictionary last dumped into \<^verbatim>\<open>settings.json\<close>, \<open>dialogs\<close> the message boxes shown.
  \<open>dirs\<close> are the directories the calls of \<^verbatim>\<open>os.makedirs\<close> have made. A call answers with
  the directories it made, leaf last, and with the exception it raised, if any: it makes
  the missing parents one at a time and may raise after it has made some of them, and
  with \<^verbatim>\<open>exist_ok=True\<close> it makes nothing when the directory is there.
\<close>

record 'x world =
  outside :: 'x
  files :: "string \<rightharpoonup> string list"
  UIQueue :: "event list"
  settings :: "(string \<times> int \<times> string) option"
  dirs :: "string list"
  dialogs :: "(string \<times> string \<times> string) list"

definition utcStamp :: "'x libs \<Rightarrow> 'x \<Rightarrow> string \<times> 'x" where
  "utcStamp lib x = utcnow lib x"

definition ffmpegPath :: "'x libs \<Rightarrow> 'x \<Rightarrow> ffmpeg_status" where
  "ffmpegPath lib x =
     (let base = getBasePath lib x;
          bundled = path_join base ''ffmpeg''
      in if path_exists lib (path_join bundled ''ffmpeg.exe'') x then FDir bundled
         else if which lib ''ffmpeg'' x then FNone
         else FFalse)"

text \<open>
  \<^verbatim>\<open>while block := f.read(chunk)\<close>: the blocks read from a file of content \<open>data\<close>; the
  loop ends at the first empty block.
\<close>

function read_blocks :: "nat \<Rightarrow> string \<Rightarrow> string list" where
  "read_blocks chunk data =
     (if chunk = 0 \<or> data = [] then []
      else take chunk data # read_blocks chunk (drop chunk data))"
  by pat_completeness auto
termination
  by (relation "measure (\<lambda>(chunk, data). length data)") auto

declare read_blocks.simps [simp del]

definition sha256Hash :: "'x libs \<Rightarrow> string \<Rightarrow> 'x \<Rightarrow> (pyexc + string) \<times> 'x" where
  "sha256Hash lib path x =
     (case read_bytes lib path x of
        (Inl e, x') \<Rightarrow> (Inl e, x')
      | (Inr data, x') \<Rightarrow> (Inr (sha256_hexdigest lib (read_blocks 8192 data)), x'))"

text \<open>
  \<^verbatim>\<open>downloadThumbnail\<close>: every exception of the download or of the write is caught and
  turned into \<^verbatim>\<open>False\<close>. \<open>urlopen_read\<close> answers for opening the URL and reading the
  response, \<open>write_bytes\<close> for opening the file and writing to it.
\<close>

definition downloadThumbnail :: "'x libs \<Rightarrow> string \<Rightarrow> string \<Rightarrow> 'x \<Rightarrow> bool \<times> 'x" where
  "downloadThumbnail lib thumbnailUrl savePath x =
     (case urlopen_read lib thumbnailUrl x of
        (Inl e, x1) \<Rightarrow> (False, x1)
      | (Inr data, x1) \<Rightarrow>
          (case write_bytes lib savePath data x1 of
             (Some e, x2) \<Rightarrow> (False, x2)
           | (None, x2) \<Rightarrow> (True, x2)))"

definition toRelHref :: "'x libs \<Rightarrow> string \<Rightarrow> string \<Rightarrow> 'x \<Rightarrow> pyexc + string" where
  "toRelHref lib targetPath base_dir x =
     (case relpath lib targetPath base_dir x of
        Inl e \<Rightarrow> Inl e
      | Inr rel \<Rightarrow> Inr (replace_char (CHR 0x5C) CHR ''/'' rel))"

subsection \<open>The report\<close>

definition report_header :: "string \<Rightarrow> string \<Rightarrow> string \<Rightarrow> string \<Rightarrow> string \<Rightarrow> string" where
  \<open>report_header case_id stamp ip1 ip2 ipStatus =
     ''<!DOCTYPE html>\<newline><html>\<newline><head>\<newline><meta charset="UTF-8">\<newline>'' @
     ''<title>Case Report - '' @ case_id @ ''</title>\<newline><style>\<newline>'' @
     ''body { font-family: Arial; background:#111; color:#eee; padding:20px; }\<newline>'' @
     ''table { width:100%; border-collapse:collapse; background:#1b1b1b; }\<newline>'' @
     ''th, td { border:1px solid #333; padding:8px; vertical-align:top; }\<newline>'' @
     ''th { background:#e53935; color:white; }\<newline>'' @
     ''a { color:#ffd166; }\<newline>'' @
     ''.verified { color:#66ff99; font-weight:bold; }\<newline>'' @
     ''.failed { color:#ff5c5c; font-weight:bold; }\<newline>'' @
     ''.hash { font-family:monospace; font-size:12px; word-break:break-all; }\<newline>'' @
     ''.meta { margin-bottom:20px; padding:12px; background:#1b1b1b; '' @
     ''border:1px solid #333; border-radius:8px; }\<newline>'' @
     ''.small { color:#bdbdbd; font-size:12px; }\<newline>'' @
     ''</style>\<newline></head>\<newline><body>\<newline>'' @
     ''<h1>Bulk YouTube Acquisition Report</h1>\<newline>\<newline>'' @
     ''<div class="meta">\<newline>'' @
     ''<strong>Case:</strong> '' @ case_id @ ''<br>\<newline>'' @
     ''<strong>Start (UTC):</strong> '' @ stamp @ ''<br>\<newline>'' @
     ''<strong>Public IP by https://api.ipify.org:</strong> '' @ ip1 @ ''<br>\<newline>'' @
     ''<strong>Public IP by https://checkip.amazonaws.com:</strong> '' @ ip2 @ ''<br>\<newline>'' @
     ''<strong>IP Verification:</strong> '' @ ipStatus @ ''\<newline></div>\<newline>\<newline>'' @
     ''<table>\<newline><tr>\<newline><th>Timestamp (UTC)</th>\<newline><th>Thumbnail</th>\<newline>'' @
     ''<th>Video Title</th>\<newline><th>Source URL</th>\<newline><th>Status</th>\<newline>'' @
     ''<th>Video SHA256</th>\<newline></tr>\<newline>''\<close>

definition report_footer :: "string \<Rightarrow> string" where
  \<open>report_footer stamp =
     ''\<newline></table>\<newline><br><br>\<newline><strong>End (UTC):</strong> '' @ stamp @
     ''\<newline></body>\<newline></html>\<newline>''\<close>

text \<open>The row of a fetched video, as the f-string of the success path writes it.\<close>

definition video_row ::
  "string \<Rightarrow> path \<Rightarrow> path \<Rightarrow> string \<Rightarrow> path \<Rightarrow> url \<Rightarrow> string \<Rightarrow> string \<Rightarrow> string
   \<Rightarrow> string" where
  \<open>video_row stamp thumbFilename video_href videoTitle finalName url css_class status hash2 =
     ''\<newline><tr>\<newline><td>'' @ stamp @ ''</td>\<newline>'' @
     ''<td><img src="Thumbnails/'' @ thumbFilename @ ''" width="160"></td>\<newline>'' @
     ''<td><a href="'' @ video_href @ ''" target="_blank">'' @ videoTitle @
     ''</a><div class="small">('' @ finalName @ '')</div></td>\<newline>'' @
     ''<td><a href="'' @ url @ ''" target="_blank">'' @ url @ ''</a></td>\<newline>'' @
     ''<td class="'' @ css_class @ ''">'' @ status @ ''</td>\<newline>'' @
     ''<td class="hash">'' @ hash2 @ ''</td>\<newline></tr>\<newline>''\<close>

text \<open>The row the exception handler writes.\<close>

definition failed_row :: "string \<Rightarrow> url \<Rightarrow> string \<Rightarrow> string" where
  \<open>failed_row stamp url err =
     ''\<newline><tr>\<newline><td>'' @ stamp @ ''</td>\<newline><td>N/A</td>\<newline>'' @
     ''<td>UNKNOWN_TITLE</td>\<newline><td>'' @ url @ ''</td>\<newline>'' @
     ''<td class="failed">FAILED</td>\<newline><td>'' @ err @ ''</td>\<newline></tr>\<newline>''\<close>

text \<open>
  \<^verbatim>\<open>with open(path, mode) as log: log.write(f"...")\<close>. Opening may raise; the text is
  built after the file is open (it reads the clock) and written in one call. The write
  is one step that either happens or raises: \<open>open_text lib path appending\<close> answers for
  both. Mode \<^verbatim>\<open>"a"\<close> creates a missing file, mode \<^verbatim>\<open>"w"\<close> truncates.
\<close>

definition write_log ::
  "'x libs \<Rightarrow> string \<Rightarrow> bool \<Rightarrow> (string \<Rightarrow> string) \<Rightarrow> 'x world \<Rightarrow> pyexc option \<times> 'x world" where
  "write_log lib path appending render w =
     (case open_text lib path appending (outside w) of
        (Some e, x1) \<Rightarrow> (Some e, w\<lparr>outside := x1\<rparr>)
      | (None, x1) \<Rightarrow>
          (let (stamp, x2) = utcStamp lib x1;
               old = (if appending then (case files w path of None \<Rightarrow> [] | Some ts \<Rightarrow> ts)
                      else [])
           in (None, w\<lparr>outside := x2, files := (files w)(path \<mapsto> old @ [render stamp])\<rparr>)))"

definition createHTMLlog ::
  "'x libs \<Rightarrow> path \<Rightarrow> string \<Rightarrow> string \<Rightarrow> string \<Rightarrow> string \<Rightarrow> 'x world
   \<Rightarrow> pyexc option \<times> 'x world" where
  "createHTMLlog lib logPath case_id ip1 ip2 ipStatus w =
     write_log lib logPath False (\<lambda>stamp. report_header case_id stamp ip1 ip2 ipStatus) w"

definition closeHTMLlog :: "'x libs \<Rightarrow> string \<Rightarrow> 'x world \<Rightarrow> pyexc option \<times> 'x world" where
  "closeHTMLlog lib logPath w = write_log lib logPath True report_footer w"

subsection \<open>\<^verbatim>\<open>processVideo\<close>\<close>

text \<open>
  The options handed to the engine. The output template places the download in
  \<open>videoDir\<close>, under a name that starts with the case identifier.
\<close>

definition ydl_options :: "string \<Rightarrow> string \<Rightarrow> ffmpeg_status \<Rightarrow> ydlOpts" where
  "ydl_options videoDir case_id ffmpegStatus =
     \<lparr>outtmpl = path_join videoDir (case_id @ ''_%(title)s.%(ext)s''),
      quiet = True,
      no_warnings = True,
      format = (if ffmpegStatus = FFalse then ''best'' else ''bestvideo+bestaudio/best''),
      merge_output_format = (if ffmpegStatus = FFalse then None else Some ''mp4''),
      ffmpeg_location = (case ffmpegStatus of
                           FDir p \<Rightarrow> (if p \<noteq> [] then Some p else None)
                         | FNone \<Rightarrow> None
                         | FFalse \<Rightarrow> None)\<rparr>"

text \<open>
  The engine calls the hook once for each dictionary it delivers. An exception of the
  hook would leave the engine and reach the \<^verbatim>\<open>try\<close> of \<^verbatim>\<open>processVideo\<close>; the events
  already put stay in the queue.
\<close>

fun run_hooks :: "'x libs \<Rightarrow> string \<Rightarrow> dict list \<Rightarrow> event list \<Rightarrow> pyexc option \<times> event list" where
  "run_hooks lib url [] q = (None, q)"
| "run_hooks lib url (d # ds) q =
     (case hook lib url d q of
        Inl e \<Rightarrow> (Some e, q)
      | Inr q' \<Rightarrow> run_hooks lib url ds q')"

text \<open>
  First part of the \<^verbatim>\<open>try\<close> block: the engine call, the name of the downloaded file and
  the thumbnail. The result is \<open>(videoTitle, thumbFilename, temp_path)\<close>. The value of
  \<^verbatim>\<open>downloadThumbnail\<close> is dropped, as in the source.
\<close>

definition processVideo_fetch ::
  "'x libs \<Rightarrow> url \<Rightarrow> path \<Rightarrow> path \<Rightarrow> string \<Rightarrow> 'x world
   \<Rightarrow> (pyexc + string \<times> path \<times> path) \<times> 'x world" where
  "processVideo_fetch lib url videoDir thumbDir case_id w =
     (let ffmpegStatus = ffmpegPath lib (outside w);
          ydlOpts = ydl_options videoDir case_id ffmpegStatus;
          ((ds, r), x1) = extract_info lib ydlOpts url (outside w);
          (raised, q1) = run_hooks lib url ds (UIQueue w);
          w1 = w\<lparr>outside := x1, UIQueue := q1\<rparr>
      in case raised of
           Some e \<Rightarrow> (Inl e, w1)
         | None \<Rightarrow>
        (case r of
           Inl e \<Rightarrow> (Inl e, w1)
         | Inr meta \<Rightarrow>
        (case prepare_filename lib ydlOpts meta x1 of
           Inl e \<Rightarrow> (Inl e, w1)
         | Inr temp_path \<Rightarrow>
             (let videoTitle = (case title meta of None \<Rightarrow> ''UNKNOWN_TITLE'' | Some t \<Rightarrow> t);
                  videoID = (case ident meta of None \<Rightarrow> ''unknownid'' | Some i \<Rightarrow> i);
                  thumbnailURL = thumbnail meta;
                  thumbFilename = videoID @ ''_thumbnail.jpg'';
                  thumbPath = path_join thumbDir thumbFilename;
                  x2 = (case thumbnailURL of
                          None \<Rightarrow> x1
                        | Some u \<Rightarrow>
                            (if u \<noteq> [] then snd (downloadThumbnail lib u thumbPath x1) else x1))
              in (Inr (videoTitle, thumbFilename, temp_path), w1\<lparr>outside := x2\<rparr>)))))"

text \<open>
  Second part: digest at \<open>temp_path\<close>, move, digest at \<open>finalPath\<close>. The result is
  \<open>(finalPath, hash1, hash2)\<close>.
\<close>

definition processVideo_verify ::
  "'x libs \<Rightarrow> path \<Rightarrow> path \<Rightarrow> 'x \<Rightarrow> (pyexc + path \<times> string \<times> string) \<times> 'x" where
  "processVideo_verify lib videoDir temp_path x =
     (case sha256Hash lib temp_path x of
        (Inl e, x1) \<Rightarrow> (Inl e, x1)
      | (Inr hash1, x1) \<Rightarrow>
          (let finalPath = path_join videoDir (basename temp_path)
           in case move lib temp_path finalPath x1 of
                (Some e, x2) \<Rightarrow> (Inl e, x2)
              | (None, x2) \<Rightarrow>
                  (case sha256Hash lib finalPath x2 of
                     (Inl e, x3) \<Rightarrow> (Inl e, x3)
                   | (Inr hash2, x3) \<Rightarrow> (Inr (finalPath, hash1, hash2), x3))))"

text \<open>
  The whole \<^verbatim>\<open>try\<close> block: fetch, verify, classify, write the row while holding
  \<^verbatim>\<open>logLock\<close>, put the DONE event. The value is the exception that reaches the
  \<^verbatim>\<open>except\<close> clause, if any. Each job runs its locked region in one step here, so the
  lock is free whenever a job asks for it and is not part of the state.
\<close>

definition processVideo_try ::
  "'x libs \<Rightarrow> url \<Rightarrow> path \<Rightarrow> path \<Rightarrow> path \<Rightarrow> string \<Rightarrow> 'x world
   \<Rightarrow> pyexc option \<times> 'x world" where
  "processVideo_try lib url videoDir thumbDir logFile case_id w =
     (case processVideo_fetch lib url videoDir thumbDir case_id w of
        (Inl e, w1) \<Rightarrow> (Some e, w1)
      | (Inr (videoTitle, thumbFilename, temp_path), w1) \<Rightarrow>
     (case processVideo_verify lib videoDir temp_path (outside w1) of
        (Inl e, x2) \<Rightarrow> (Some e, w1\<lparr>outside := x2\<rparr>)
      | (Inr (finalPath, hash1, hash2), x2) \<Rightarrow>
          (let status = (if hash1 = hash2 then ''VERIFIED'' else ''HASH_MISMATCH'');
               css_class = (if status = ''VERIFIED'' then ''verified'' else ''failed'');
               report_dir = dirname logFile;
               w2 = w1\<lparr>outside := x2\<rparr>
           in case toRelHref lib finalPath report_dir x2 of
                Inl e \<Rightarrow> (Some e, w2)
              | Inr video_href \<Rightarrow>
                  (case write_log lib logFile True
                          (\<lambda>stamp. video_row stamp thumbFilename video_href videoTitle
                                     (basename finalPath) url css_class status hash2) w2 of
                     (Some e, w3) \<Rightarrow> (Some e, w3)
                   | (None, w3) \<Rightarrow>
                       (None, w3\<lparr>UIQueue := UIQueue w3 @ [(url, ''DONE'', Str hash2)]\<rparr>)))))"

text \<open>
  \<^verbatim>\<open>processVideo\<close>: the \<^verbatim>\<open>try\<close> block and its handler. The handler writes the FAILED
  row while holding \<^verbatim>\<open>logLock\<close> and then puts the FAILED event; it has no handler of
  its own, so an exception of its write leaves the function. The value is the
  exception that leaves \<^verbatim>\<open>processVideo\<close>, if any.
\<close>

definition processVideo ::
  "'x libs \<Rightarrow> url \<Rightarrow> path \<Rightarrow> path \<Rightarrow> path \<Rightarrow> string \<Rightarrow> 'x world
   \<Rightarrow> pyexc option \<times> 'x world" where
  "processVideo lib url videoDir thumbDir logFile case_id w =
     (case processVideo_try lib url videoDir thumbDir logFile case_id w of
        (None, w1) \<Rightarrow> (None, w1)
      | (Some e, w1) \<Rightarrow>
          (case write_log lib logFile True (\<lambda>stamp. failed_row stamp url (str e)) w1 of
             (Some e', w2) \<Rightarrow> (Some e', w2)
           | (None, w2) \<Rightarrow>
               (None, w2\<lparr>UIQueue := UIQueue w2 @ [(url, ''FAILED'', Str (str e))]\<rparr>)))"

subsection \<open>The application object\<close>

text \<open>
  The attributes of \<^verbatim>\<open>App\<close> that \<^verbatim>\<open>startCase\<close> and \<^verbatim>\<open>updatingUI\<close> read and write. The four
  entry widgets hold what the operator typed. \<open>tree\<close> is the Treeview: its items in
  order, each an item identifier with the two column values; the second column is kept
  as the value that is displayed, not as its formatted text. \<open>executor\<close> is the
  \<^verbatim>\<open>max_workers\<close> of the pool in use. The count label and the progress bar only display
  the counters and are left out.
\<close>

type_synonym job = "url \<times> path \<times> path \<times> path \<times> string"

record app =
  caseEntry :: string
  threadPicker :: string
  urlText :: string
  destinationEntry :: string
  total_items :: nat
  done_items :: nat
  failed_items :: nat
  statusBadge :: string
  tree :: "(string \<times> string \<times> payload) list"
  futures :: "job list"
  executor :: "int option"

text \<open>
  \<^verbatim>\<open>tree.insert("", "end", iid=...)\<close> and \<^verbatim>\<open>tree.item(iid, values=...)\<close>. Tk refuses
  to insert an item identifier that is already in the tree and to configure one that
  is not; tkinter raises \<^verbatim>\<open>TclError\<close> in both cases.
\<close>

definition tree_insert ::
  "(string \<times> string \<times> payload) list \<Rightarrow> string \<Rightarrow> string \<times> payload
   \<Rightarrow> pyexc + (string \<times> string \<times> payload) list" where
  "tree_insert t iid vals =
     (if iid \<in> set (map fst t) then Inl (PyExc (''Item '' @ iid @ '' already exists''))
      else Inr (t @ [(iid, vals)]))"

definition tree_item ::
  "(string \<times> string \<times> payload) list \<Rightarrow> string \<Rightarrow> string \<times> payload
   \<Rightarrow> pyexc + (string \<times> string \<times> payload) list" where
  "tree_item t iid vals =
     (if iid \<in> set (map fst t)
      then Inr (map (\<lambda>(i, v). if i = iid then (i, vals) else (i, v)) t)
      else Inl (PyExc (''Item '' @ iid @ '' not found'')))"

text \<open>\<^verbatim>\<open>ThreadPoolExecutor(max_workers=n)\<close> raises \<^verbatim>\<open>ValueError\<close> unless \<open>n\<close> is positive.\<close>

definition ThreadPoolExecutor :: "int \<Rightarrow> pyexc + int" where
  "ThreadPoolExecutor max_workers =
     (if max_workers \<le> 0 then Inl (PyExc ''max_workers must be greater than 0'')
      else Inr max_workers)"

definition showerror :: "string \<Rightarrow> string \<Rightarrow> 'x world \<Rightarrow> 'x world" where
  "showerror ttl msg w = w\<lparr>dialogs := dialogs w @ [(''showerror'', ttl, msg)]\<rparr>"

definition showinfo :: "string \<Rightarrow> string \<Rightarrow> 'x world \<Rightarrow> 'x world" where
  "showinfo ttl msg w = w\<lparr>dialogs := dialogs w @ [(''showinfo'', ttl, msg)]\<rparr>"

definition saveSetting ::
  "'x libs \<Rightarrow> string \<times> int \<times> string \<Rightarrow> 'x world \<Rightarrow> pyexc option \<times> 'x world" where
  "saveSetting lib data w =
     (case open_text lib ''settings.json'' False (outside w) of
        (Some e, x1) \<Rightarrow> (Some e, w\<lparr>outside := x1\<rparr>)
      | (None, x1) \<Rightarrow> (None, w\<lparr>outside := x1, settings := Some data\<rparr>))"

text \<open>One round of the loop of \<^verbatim>\<open>checkIPaddress\<close>, and the function.\<close>

definition check_ip :: "'x libs \<Rightarrow> string \<Rightarrow> 'x \<Rightarrow> string \<times> 'x" where
  "check_ip lib url x =
     (case urlopen_read lib url x of
        (Inl e, x1) \<Rightarrow> (''ERROR'', x1)
      | (Inr data, x1) \<Rightarrow>
          (case decode lib data of
             Inl e \<Rightarrow> (''ERROR'', x1)
           | Inr txt \<Rightarrow> (strip txt, x1)))"

definition checkIPaddress :: "'x libs \<Rightarrow> 'x \<Rightarrow> (string \<times> string) \<times> 'x" where
  "checkIPaddress lib x =
     (let (ip1, x1) = check_ip lib ''https://api.ipify.org'' x;
          (ip2, x2) = check_ip lib ''https://checkip.amazonaws.com'' x1
      in ((ip1, ip2), x2))"

text \<open>
  The \<^verbatim>\<open>for url in urls\<close> loop of \<^verbatim>\<open>startCase\<close>: insert the item, submit the job. An
  exception of \<^verbatim>\<open>tree.insert\<close> ends the loop and \<^verbatim>\<open>startCase\<close>; the jobs submitted before
  it stay submitted.
\<close>

fun submit_all ::
  "url list \<Rightarrow> path \<Rightarrow> path \<Rightarrow> path \<Rightarrow> string \<Rightarrow> app \<Rightarrow> pyexc option \<times> app" where
  "submit_all [] video_dir thumb_dir log_file case_id a = (None, a)"
| "submit_all (url # urls) video_dir thumb_dir log_file case_id a =
     (case tree_insert (tree a) url (''Queued'', Str ''0%'') of
        Inl e \<Rightarrow> (Some e, a)
      | Inr t \<Rightarrow>
          submit_all urls video_dir thumb_dir log_file case_id
            (a\<lparr>tree := t,
               futures := futures a @ [(url, video_dir, thumb_dir, log_file, case_id)]\<rparr>))"

text \<open>
  What \<^verbatim>\<open>startCase\<close> leaves behind: the exception that left it, if any; the jobs it
  submitted to the pool; and the report path its \<^verbatim>\<open>finalize\<close> thread was started for,
  if it got that far.
\<close>

record started =
  raised :: "pyexc option"
  submitted :: "job list"
  finalizer :: "string option"

definition url_lines :: "string \<Rightarrow> string list" where
  "url_lines txt = map strip (filter (\<lambda>u. strip u \<noteq> []) (split_lines txt))"

definition clamp_threads :: "'x libs \<Rightarrow> string \<Rightarrow> int" where
  "clamp_threads lib txt =
     (case int_of lib txt of
        Inr threads \<Rightarrow> max 1 (min 32 threads)
      | Inl e \<Rightarrow> 4)"

definition startCase :: "'x libs \<Rightarrow> app \<Rightarrow> 'x world \<Rightarrow> started \<times> app \<times> 'x world" where
  "startCase lib a w =
     (let case_id = strip (caseEntry a);
          idle = \<lparr>raised = None, submitted = [], finalizer = None\<rparr>
      in if case_id = [] then (idle, a, showerror ''Error'' ''Case Number is required.'' w)
      else
     (let threads = clamp_threads lib (threadPicker a);
          urls = url_lines (urlText a)
      in if urls = [] then (idle, a, showerror ''Error'' ''No URLs entered.'' w)
      else
     (let destination_root = strip (destinationEntry a)
      in if destination_root = []
         then (idle, a, showerror ''Error'' ''Destination folder is required.'' w)
      else
     (case saveSetting lib (case_id, threads, destination_root) w of
        (Some e, w1) \<Rightarrow> (idle\<lparr>raised := Some e\<rparr>, a, w1)
      | (None, w1) \<Rightarrow>
     (let base = path_join destination_root case_id;
          video_dir = path_join base ''Videos'';
          thumb_dir = path_join base ''Thumbnails''
      in case makedirs lib video_dir (outside w1) of
           ((Some e, made1), x2) \<Rightarrow>
             (idle\<lparr>raised := Some e\<rparr>, a, w1\<lparr>outside := x2, dirs := dirs w1 @ made1\<rparr>)
         | ((None, made1), x2) \<Rightarrow>
        (case makedirs lib thumb_dir x2 of
           ((Some e, made2), x3) \<Rightarrow>
             (idle\<lparr>raised := Some e\<rparr>, a,
              w1\<lparr>outside := x3, dirs := dirs w1 @ made1 @ made2\<rparr>)
         | ((None, made2), x3) \<Rightarrow>
        (let log_file = path_join base (case_id @ ''_report.html'');
             ((ip1, ip2), x4) = checkIPaddress lib x3;
             ip_status = (if ip1 = ip2 \<and> ip1 \<noteq> ''ERROR'' then ''VERIFIED'' else ''MISMATCH'');
             w4 = w1\<lparr>outside := x4, dirs := dirs w1 @ made1 @ made2\<rparr>
         in case createHTMLlog lib log_file case_id ip1 ip2 ip_status w4 of
              (Some e, w5) \<Rightarrow> (idle\<lparr>raised := Some e\<rparr>, a, w5)
            | (None, w5) \<Rightarrow>
           (let a1 = a\<lparr>total_items := length urls, done_items := 0, failed_items := 0,
                      statusBadge := ''RUNNING'', tree := [], futures := []\<rparr>
            in case ThreadPoolExecutor threads of
                 Inl e \<Rightarrow> (idle\<lparr>raised := Some e\<rparr>, a1, w5)
               | Inr pool \<Rightarrow>
                   (case submit_all urls video_dir thumb_dir log_file case_id
                           (a1\<lparr>executor := Some pool\<rparr>) of
                      (Some e, a2) \<Rightarrow>
                        (\<lparr>raised = Some e, submitted = futures a2, finalizer = None\<rparr>, a2, w5)
                    | (None, a2) \<Rightarrow>
                        (\<lparr>raised = None, submitted = futures a2, finalizer = Some log_file\<rparr>,
                         a2, w5))))))))))"

text \<open>
  The pool: every submitted job is run, one call of \<^verbatim>\<open>processVideo\<close> each. The value of
  a job is the exception that left it, which the future keeps and nobody reads. The
  jobs are run one after the other, in the order of the list given.
\<close>

fun run_jobs :: "'x libs \<Rightarrow> job list \<Rightarrow> 'x world \<Rightarrow> pyexc option list \<times> 'x world" where
  "run_jobs lib [] w = ([], w)"
| "run_jobs lib ((url, video_dir, thumb_dir, log_file, case_id) # js) w =
     (let (r, w1) = processVideo lib url video_dir thumb_dir log_file case_id w;
          (rs, w2) = run_jobs lib js w1
      in (r # rs, w2))"

text \<open>
  \<^verbatim>\<open>finalize\<close>, once \<^verbatim>\<open>as_completed\<close> has handed out every future (it hands out the failed
  ones as well, and their exceptions are not looked at).
\<close>

definition finalize :: "'x libs \<Rightarrow> string \<Rightarrow> 'x world \<Rightarrow> pyexc option \<times> 'x world" where
  "finalize lib log_file w =
     (case closeHTMLlog lib log_file w of
        (Some e, w1) \<Rightarrow> (Some e, w1)
      | (None, w1) \<Rightarrow>
          (None, w1\<lparr>UIQueue := UIQueue w1 @ [(''__SYSTEM__'', ''FINISHED'', Str log_file)]\<rparr>))"

text \<open>
  A whole run: \<^verbatim>\<open>startCase\<close>, then the pool working through the submitted jobs in the
  order \<open>sched\<close> picks, then the \<^verbatim>\<open>finalize\<close> thread if it was started. The value holds what
  \<^verbatim>\<open>startCase\<close> left behind, the values of the jobs in the order they were run, and the
  exception that ended the \<^verbatim>\<open>finalize\<close> thread, if any.
\<close>

definition run_case ::
  "'x libs \<Rightarrow> (job list \<Rightarrow> job list) \<Rightarrow> app \<Rightarrow> 'x world
   \<Rightarrow> (started \<times> pyexc option list \<times> pyexc option) \<times> app \<times> 'x world" where
  "run_case lib sched a w =
     (let (st, a1, w1) = startCase lib a w;
          (rs, w2) = run_jobs lib (sched (submitted st)) w1
      in case finalizer st of
           None \<Rightarrow> ((st, rs, None), a1, w2)
         | Some log_file \<Rightarrow>
             (let (r, w3) = finalize lib log_file w2 in ((st, rs, r), a1, w3)))"

text \<open>
  \<^verbatim>\<open>updatingUI\<close>: take events from the queue until it is empty. An exception of
  \<^verbatim>\<open>tree.item\<close> is not \<^verbatim>\<open>queue.Empty\<close> and leaves the function, with the rest of the queue
  untouched. The queue holds what \<^verbatim>\<open>processVideo\<close> and \<^verbatim>\<open>finalize\<close> put: a number with
  PROGRESS and MERGING, a string with the other tags.
\<close>

definition ui_event :: "event \<Rightarrow> app \<Rightarrow> 'x world \<Rightarrow> pyexc option \<times> app \<times> 'x world" where
  "ui_event ev a w =
     (case ev of (url, tag, dat) \<Rightarrow>
        if url = ''__SYSTEM__'' \<and> tag = ''FINISHED''
        then (None, a\<lparr>statusBadge := ''DONE''\<rparr>,
              showinfo ''Case Complete''
                (''Finished! Report saved:\<newline>'' @ (case dat of Str p \<Rightarrow> p | Num v \<Rightarrow> [])) w)
        else if tag = ''PROGRESS'' then
          (case tree_item (tree a) url (''DOWNLOADING'', dat) of
             Inl e \<Rightarrow> (Some e, a, w)
           | Inr t \<Rightarrow> (None, a\<lparr>tree := t\<rparr>, w))
        else if tag = ''MERGING'' then
          (case tree_item (tree a) url (''MERGING'', dat) of
             Inl e \<Rightarrow> (Some e, a, w)
           | Inr t \<Rightarrow> (None, a\<lparr>tree := t\<rparr>, w))
        else if tag = ''DONE'' then
          (let a1 = a\<lparr>done_items := done_items a + 1\<rparr>
           in case tree_item (tree a1) url (''VERIFIED'', dat) of
                Inl e \<Rightarrow> (Some e, a1, w)
              | Inr t \<Rightarrow> (None, a1\<lparr>tree := t\<rparr>, w))
        else if tag = ''FAILED'' then
          (let a1 = a\<lparr>failed_items := failed_items a + 1\<rparr>
           in case tree_item (tree a1) url (''FAILED'', dat) of
                Inl e \<Rightarrow> (Some e, a1, w)
              | Inr t \<Rightarrow> (None, a1\<lparr>tree := t\<rparr>, w))
        else (None, a, w))"

fun drain :: "event list \<Rightarrow> app \<Rightarrow> 'x world \<Rightarrow> pyexc option \<times> app \<times> 'x world" where
  "drain [] a w = (None, a, w\<lparr>UIQueue := []\<rparr>)"
| "drain (ev # evs) a w =
     (case ui_event ev a (w\<lparr>UIQueue := evs\<rparr>) of
        (Some e, a1, w1) \<Rightarrow> (Some e, a1, w1)
      | (None, a1, w1) \<Rightarrow> drain evs a1 w1)"

definition updatingUI :: "app \<Rightarrow> 'x world \<Rightarrow> pyexc option \<times> app \<times> 'x world" where
  "updatingUI a w = drain (UIQueue w) a w"

subsection \<open>Observations\<close>

text \<open>
  A terminal event carries the tag DONE or FAILED; a progress event PROGRESS or MERGING.
  \<open>written w path\<close> are the texts written to a file so far.
\<close>

definition terminal :: "event \<Rightarrow> bool" where
  "terminal ev = (fst (snd ev) = ''DONE'' \<or> fst (snd ev) = ''FAILED'')"

definition progress :: "event \<Rightarrow> bool" where
  "progress ev = (fst (snd ev) = ''PROGRESS'' \<or> fst (snd ev) = ''MERGING'')"

definition finished :: "event \<Rightarrow> bool" where
  "finished ev = (fst ev = ''__SYSTEM__'' \<and> fst (snd ev) = ''FINISHED'')"

definition written :: "'x world \<Rightarrow> string \<Rightarrow> string list" where
  "written w path = (case files w path of None \<Rightarrow> [] | Some ts \<Rightarrow> ts)"

text \<open>The jobs of a list that returned, given the values of all of them in order.\<close>

definition returned :: "job list \<Rightarrow> pyexc option list \<Rightarrow> job list" where
  "returned js rs = map fst (filter (\<lambda>(j, r). r = None) (zip js rs))"

subsection \<open>A concrete outside world\<close>

text \<open>
  A stand-in for the outside world, for running the definitions on concrete inputs. Its
  state is the list of the calls that changed or read the file system. The engine
  delivers two callbacks and a title, and names the file as the output template says:
  the template up to its first field, then the title and the extension. Every file
  reads as \<^verbatim>\<open>content\<close> and the stand-in digest is the data itself.
\<close>

definition stub :: "string list libs" where
  "stub =
     \<lparr>float_of = (\<lambda>s. if s = ''42.5'' then Inr (Finite 42.5)
                       else Inl (PyExc ''could not convert string to float'')),
      int_of = (\<lambda>s. if s = ''2'' then Inr 2 else if s = ''100'' then Inr 100
                     else if s = ''0'' then Inr 0
                     else Inl (PyExc ''invalid literal for int() with base 10'')),
      utcnow = (\<lambda>x. (''2026-02-14 12:00:00Z'', x)),
      getBasePath = (\<lambda>x. ''/app''),
      path_exists = (\<lambda>p x. False),
      which = (\<lambda>p x. True),
      extract_info = (\<lambda>opts url x.
         (([[''status'' \<mapsto> ''downloading'', ''_percent_str'' \<mapsto> '' 42.5%''],
            [''status'' \<mapsto> ''downloading'', ''_percent_str'' \<mapsto> ''n/a''],
            [''status'' \<mapsto> ''finished'']],
           Inr \<lparr>title = Some ''A'', ident = Some ''idA'',
                thumbnail = Some ''https://example/t.jpg''\<rparr>), x)),
      prepare_filename = (\<lambda>opts meta x.
         Inr (takeWhile (\<lambda>c. c \<noteq> CHR ''%'') (outtmpl opts) @
              (case title meta of None \<Rightarrow> ''NA'' | Some t \<Rightarrow> t) @ ''.mp4'')),
      urlopen_read = (\<lambda>url x. (Inr ''bytes'', x)),
      decode = (\<lambda>b. Inr b),
      write_bytes = (\<lambda>p d x. (None, x)),
      read_bytes = (\<lambda>p x. (Inr ''content'', x @ [''read '' @ p])),
      sha256_hexdigest = concat,
      move = (\<lambda>src dst x. (None, x @ [''move '' @ src @ '' '' @ dst])),
      relpath = (\<lambda>p b x. Inr (''Videos/'' @ basename p)),
      open_text = (\<lambda>p a x. (None, x)),
      makedirs = (\<lambda>p x. ((None, [p]), x))\<rparr>"

text \<open>An empty program state, and the form as an operator fills it in.\<close>

definition world0 :: "string list world" where
  "world0 = \<lparr>outside = [], files = Map.empty, UIQueue = [], settings = None, dirs = [],
             dialogs = []\<rparr>"

definition form :: "string \<Rightarrow> string \<Rightarrow> string \<Rightarrow> path \<Rightarrow> app" where
  "form case_id threads urls destination =
     \<lparr>caseEntry = case_id, threadPicker = threads, urlText = urls,
      destinationEntry = destination, total_items = 0, done_items = 0, failed_items = 0,
      statusBadge = ''IDLE'', tree = [], futures = [], executor = None\<rparr>"

text \<open>
  Variants of the stand-in. \<open>failing\<close>: the engine raises after one callback and the
  report cannot be opened for appending. \<open>corrupting\<close>: the engine leaves the file
  outside the videos directory and the move loses the last byte. \<open>truncated\<close>: every
  file reads one byte short, before and after the move. \<open>no_thumbnail\<close>: the download
  of the thumbnail fails.
\<close>

definition failing :: "string list libs" where
  "failing = stub\<lparr>extract_info := (\<lambda>opts url x.
                 (([[''status'' \<mapsto> ''downloading'', ''_percent_str'' \<mapsto> ''42.5%'']],
                   Inl (PyExc ''ERROR: Video unavailable'')), x)),
               open_text := (\<lambda>p a x. (if a then Some (PyExc ''Permission denied'') else None, x))\<rparr>"

definition corrupting :: "string list libs" where
  "corrupting = stub\<lparr>prepare_filename := (\<lambda>opts meta x. Inr ''/tmp/C7_A.mp4''),
                  read_bytes := (\<lambda>p x. (Inr (if p = ''/tmp/C7_A.mp4'' then ''content'' else ''conten''),
                                         x @ [''read '' @ p]))\<rparr>"

definition truncated :: "string list libs" where
  "truncated = stub\<lparr>read_bytes := (\<lambda>p x. (Inr ''conten'', x @ [''read '' @ p]))\<rparr>"

definition no_thumbnail :: "string list libs" where
  "no_thumbnail =
     stub\<lparr>urlopen_read := (\<lambda>url x. (Inl (PyExc ''HTTP Error 404: Not Found''), x))\<rparr>"

text \<open>
  The form of the end-to-end scenario, with the worker count as typed; the same form
  with one URL entered twice; an outside world whose file system refuses to make
  directories; and one in which the case directory and the videos directory can be made
  and the thumbnails directory cannot (a file of that name is in the way).
\<close>

definition demo :: "string \<Rightarrow> app" where
  "demo threads =
     form ''CASE007'' threads ''https://example/videoA\<newline>https://example/videoB\<newline>'' ''/d''"

definition demo_twice :: app where
  "demo_twice =
     form ''CASE007'' ''2'' ''https://example/videoA\<newline>https://example/videoA\<newline>'' ''/d''"

definition readonly :: "string list libs" where
  "readonly = stub\<lparr>makedirs := (\<lambda>p x. ((Some (PyExc ''Read-only file system''), []), x))\<rparr>"

definition thumbs_blocked :: "string list libs" where
  "thumbs_blocked =
     stub\<lparr>makedirs := (\<lambda>p x.
        if p = ''/d/CASE007/Videos''
        then ((None, [''/d/CASE007'', ''/d/CASE007/Videos'']), x @ [''makedirs '' @ p])
        else ((Some (PyExc ''File exists''), []), x @ [''makedirs '' @ p]))\<rparr>"

section \<open>Effects of one job\<close>

text \<open>
  What a call of \<^verbatim>\<open>processVideo\<close> can change: the outside world, the queue and the
  report. The lemmas of this section say how, for every outside world.
\<close>

lemma hook_Inr:
  "\<exists>evs. hook lib url d q = Inr (q @ evs) \<and> (\<forall>ev \<in> set evs. fst ev = url \<and> progress ev)"
  by (auto simp: hook_def Let_def progress_def split: option.splits sum.splits)

lemma run_hooks_queue:
  "\<exists>evs. run_hooks lib url ds q = (None, q @ evs) \<and> (\<forall>ev \<in> set evs. fst ev = url \<and> progress ev)"
proof (induction ds arbitrary: q)
  case Nil
  then show ?case by simp
next
  case (Cons d ds)
  obtain e1 where h: "hook lib url d q = Inr (q @ e1)" "\<forall>ev \<in> set e1. fst ev = url \<and> progress ev"
    using hook_Inr by blast
  obtain e2 where r: "run_hooks lib url ds (q @ e1) = (None, (q @ e1) @ e2)"
      "\<forall>ev \<in> set e2. fst ev = url \<and> progress ev"
    using Cons.IH by blast
  have "run_hooks lib url (d # ds) q = (None, q @ (e1 @ e2))"
    using h r by simp
  moreover have "\<forall>ev \<in> set (e1 @ e2). fst ev = url \<and> progress ev"
    using h r by auto
  ultimately show ?case by blast
qed

lemma write_log_effect:
  assumes "write_log lib path ap render w = (r, w')"
  shows "settings w' = settings w \<and> dirs w' = dirs w \<and> dialogs w' = dialogs w \<and>
         UIQueue w' = UIQueue w \<and> (\<forall>p. p \<noteq> path \<longrightarrow> files w' p = files w p) \<and>
         r = fst (open_text lib path ap (outside w)) \<and>
         (r \<noteq> None \<longrightarrow> files w' = files w) \<and>
         (r = None \<longrightarrow> (\<exists>stamp. files w' path =
                          Some ((if ap then written w path else []) @ [render stamp])))"
  using assms
  by (auto simp: write_log_def written_def Let_def split: prod.splits option.splits)

lemma fetch_cases:
  assumes "processVideo_fetch lib url videoDir thumbDir case_id w = (r, w1)"
  shows "files w1 = files w \<and> settings w1 = settings w \<and> dirs w1 = dirs w \<and> dialogs w1 = dialogs w \<and>
         (\<exists>evs. UIQueue w1 = UIQueue w @ evs \<and> (\<forall>ev \<in> set evs. fst ev = url \<and> progress ev))"
proof -
  obtain ds r0 x1 where e: "extract_info lib (ydl_options videoDir case_id (ffmpegPath lib (outside w))) url (outside w) = ((ds, r0), x1)"
    by (metis prod.exhaust)
  obtain evs where h: "run_hooks lib url ds (UIQueue w) = (None, UIQueue w @ evs)"
     "\<forall>ev \<in> set evs. fst ev = url \<and> progress ev"
    using run_hooks_queue by blast
  show ?thesis
    using assms e h
    by (auto simp: processVideo_fetch_def Let_def split: sum.splits option.splits if_splits)
qed

lemma progress_not_terminal: "progress ev \<Longrightarrow> \<not> terminal ev"
  by (auto simp: progress_def terminal_def)

lemma filter_terminal_progress:
  "\<forall>ev \<in> set evs. fst ev = url \<and> progress ev \<Longrightarrow> filter terminal evs = []"
  by (induction evs) (auto simp: progress_not_terminal)

lemma try_effect:
  assumes "processVideo_try lib url videoDir thumbDir logFile case_id w = (r, w')"
  shows "settings w' = settings w \<and> dirs w' = dirs w \<and> dialogs w' = dialogs w \<and>
         (\<forall>p. p \<noteq> logFile \<longrightarrow> files w' p = files w p) \<and>
         (\<exists>pre. (\<forall>ev \<in> set pre. fst ev = url \<and> progress ev) \<and>
            (r \<noteq> None \<longrightarrow> UIQueue w' = UIQueue w @ pre \<and> files w' = files w) \<and>
            (r = None \<longrightarrow> (\<exists>h. UIQueue w' = UIQueue w @ pre @ [(url, ''DONE'', Str h)]) \<and>
                           (\<exists>row. files w' logFile = Some (written w logFile @ [row]))))"
proof -
  obtain r1 w1 where f: "processVideo_fetch lib url videoDir thumbDir case_id w = (r1, w1)"
    by (metis prod.exhaust)
  from fetch_cases[OF f] obtain pre where
    k: "files w1 = files w" "settings w1 = settings w" "dirs w1 = dirs w" "dialogs w1 = dialogs w"
    and q: "UIQueue w1 = UIQueue w @ pre" "\<forall>ev \<in> set pre. fst ev = url \<and> progress ev"
    by blast
  have wr: "written w1 logFile = written w logFile"
    using k by (simp add: written_def)
  show ?thesis
  proof (cases r1)
    case (Inl e)
    then show ?thesis using assms f k q
      by (auto simp: processVideo_try_def)
  next
    case (Inr t)
    obtain videoTitle thumbFilename temp_path where t: "t = (videoTitle, thumbFilename, temp_path)"
      by (metis prod.exhaust)
    obtain r2 x2 where v: "processVideo_verify lib videoDir temp_path (outside w1) = (r2, x2)"
      by (metis prod.exhaust)
    show ?thesis
    proof (cases r2)
      case (Inl e)
      then show ?thesis using assms f Inr t v k q
        by (auto simp: processVideo_try_def)
    next
      case (Inr u)
      obtain finalPath hash1 hash2 where u: "u = (finalPath, hash1, hash2)"
        by (metis prod.exhaust)
      show ?thesis
      proof (cases "toRelHref lib finalPath (dirname logFile) x2")
        case (Inl e)
        then show ?thesis using assms f \<open>r1 = Inr t\<close> t v Inr u k q
          by (auto simp: processVideo_try_def Let_def)
      next
        case (Inr href)
        let ?w2 = "w1\<lparr>outside := x2\<rparr>"
        let ?render = "\<lambda>stamp. video_row stamp thumbFilename href videoTitle (basename finalPath) url
              (if (if hash1 = hash2 then ''VERIFIED'' else ''HASH_MISMATCH'') = ''VERIFIED''
               then ''verified'' else ''failed'')
              (if hash1 = hash2 then ''VERIFIED'' else ''HASH_MISMATCH'') hash2"
        obtain r3 w3 where l: "write_log lib logFile True ?render ?w2 = (r3, w3)"
          by (metis prod.exhaust)
        have w2: "written ?w2 logFile = written w logFile" "files ?w2 = files w"
          using k by (simp_all add: written_def)
        from write_log_effect[OF l] w2 k q
        have e3: "settings w3 = settings w" "dirs w3 = dirs w" "dialogs w3 = dialogs w"
          "UIQueue w3 = UIQueue w @ pre" "\<forall>p. p \<noteq> logFile \<longrightarrow> files w3 p = files w p"
          "r3 \<noteq> None \<longrightarrow> files w3 = files w"
          "r3 = None \<longrightarrow> (\<exists>stamp. files w3 logFile = Some (written w logFile @ [?render stamp]))"
          by simp_all
        have res: "(r, w') = (case r3 of Some e \<Rightarrow> (Some e, w3)
                      | None \<Rightarrow> (None, w3\<lparr>UIQueue := UIQueue w3 @ [(url, ''DONE'', Str hash2)]\<rparr>))"
          using assms f \<open>r1 = Inr t\<close> t v \<open>r2 = Inr u\<close> u Inr l
          by (simp add: processVideo_try_def Let_def)
        show ?thesis
        proof (cases r3)
          case None
          then show ?thesis using res e3 q by auto
        next
          case (Some e)
          then show ?thesis using res e3 q by auto
        qed
      qed
    qed
  qed
qed


lemma pv_effect:
  assumes "processVideo lib url videoDir thumbDir logFile case_id w = (r, w')"
  shows "settings w' = settings w \<and> dirs w' = dirs w \<and> dialogs w' = dialogs w \<and>
         (\<forall>p. p \<noteq> logFile \<longrightarrow> files w' p = files w p) \<and>
         (\<exists>evs. UIQueue w' = UIQueue w @ evs \<and>
                (\<forall>ev \<in> set evs. fst ev = url \<and> (progress ev \<or> terminal ev)) \<and>
                map fst (filter terminal evs) = (if r = None then [url] else [])) \<and>
         (\<exists>rows. written w' logFile = written w logFile @ rows \<and>
                 length rows = (if r = None then 1 else 0))"
proof -
  obtain r1 w1 where t: "processVideo_try lib url videoDir thumbDir logFile case_id w = (r1, w1)"
    by (metis prod.exhaust)
  from try_effect[OF t] obtain pre where
    k: "settings w1 = settings w" "dirs w1 = dirs w" "dialogs w1 = dialogs w"
       "\<forall>p. p \<noteq> logFile \<longrightarrow> files w1 p = files w p"
    and pre: "\<forall>ev \<in> set pre. fst ev = url \<and> progress ev"
    and bad: "r1 \<noteq> None \<longrightarrow> UIQueue w1 = UIQueue w @ pre \<and> files w1 = files w"
    and good: "r1 = None \<longrightarrow> (\<exists>h. UIQueue w1 = UIQueue w @ pre @ [(url, ''DONE'', Str h)]) \<and>
                           (\<exists>row. files w1 logFile = Some (written w logFile @ [row]))"
    by blast
  have ft: "filter terminal pre = []"
    using pre by (rule filter_terminal_progress)
  show ?thesis
  proof (cases r1)
    case None
    then have rw: "r = None" "w' = w1"
      using assms t by (simp_all add: processVideo_def)
    obtain h row where q: "UIQueue w1 = UIQueue w @ pre @ [(url, ''DONE'', Str h)]"
      and f: "files w1 logFile = Some (written w logFile @ [row])"
      using good None by blast
    have "\<forall>ev \<in> set (pre @ [(url, ''DONE'', Str h)]). fst ev = url \<and> (progress ev \<or> terminal ev)"
      using pre by (auto simp: terminal_def)
    moreover have "map fst (filter terminal (pre @ [(url, ''DONE'', Str h)])) = [url]"
      using ft by (simp add: terminal_def)
    moreover have "written w1 logFile = written w logFile @ [row]"
      using f by (simp add: written_def)
    ultimately show ?thesis
      using rw k q by force
  next
    case (Some e)
    then have q1: "UIQueue w1 = UIQueue w @ pre" and f1: "files w1 = files w"
      using bad by simp_all
    let ?render = "\<lambda>stamp. failed_row stamp url (str e)"
    obtain r2 w2 where l: "write_log lib logFile True ?render w1 = (r2, w2)"
      by (metis prod.exhaust)
    have wr1: "written w1 logFile = written w logFile"
      using f1 by (simp add: written_def)
    from write_log_effect[OF l] k q1 f1 wr1
    have e2: "settings w2 = settings w" "dirs w2 = dirs w" "dialogs w2 = dialogs w"
      "UIQueue w2 = UIQueue w @ pre" "\<forall>p. p \<noteq> logFile \<longrightarrow> files w2 p = files w p"
      "r2 \<noteq> None \<longrightarrow> files w2 = files w"
      "r2 = None \<longrightarrow> (\<exists>stamp. files w2 logFile = Some (written w logFile @ [?render stamp]))"
      by simp_all
    have res: "(r, w') = (case r2 of Some e' \<Rightarrow> (Some e', w2)
                  | None \<Rightarrow> (None, w2\<lparr>UIQueue := UIQueue w2 @ [(url, ''FAILED'', Str (str e))]\<rparr>))"
      using assms t Some l by (simp add: processVideo_def)
    show ?thesis
    proof (cases r2)
      case None
      then have rw: "r = None" "w' = w2\<lparr>UIQueue := UIQueue w2 @ [(url, ''FAILED'', Str (str e))]\<rparr>"
        using res by simp_all
      obtain stamp where f: "files w2 logFile = Some (written w logFile @ [?render stamp])"
        using e2 None by blast
      have "\<forall>ev \<in> set (pre @ [(url, ''FAILED'', Str (str e))]). fst ev = url \<and> (progress ev \<or> terminal ev)"
        using pre by (auto simp: terminal_def)
      moreover have "map fst (filter terminal (pre @ [(url, ''FAILED'', Str (str e))])) = [url]"
        using ft by (simp add: terminal_def)
      moreover have "written w' logFile = written w logFile @ [?render stamp]"
        using f rw by (simp add: written_def)
      moreover have "UIQueue w' = UIQueue w @ (pre @ [(url, ''FAILED'', Str (str e))])"
        using rw e2 by simp
      ultimately show ?thesis
        using rw e2 by force
    next
      case (Some e')
      then have rw: "r = Some e'" "w' = w2"
        using res by simp_all
      have "written w2 logFile = written w logFile"
        using e2 Some by (simp add: written_def)
      moreover have "\<forall>ev \<in> set pre. fst ev = url \<and> (progress ev \<or> terminal ev)"
        using pre by auto
      ultimately show ?thesis
        using rw e2 ft by force
    qed
  qed
qed

subsection \<open>Paths\<close>

lemma basename_append_slash:
  assumes "CHR ''/'' \<notin> set name"
  shows "basename (a @ CHR ''/'' # name) = name"
proof -
  have "takeWhile (\<lambda>c. c \<noteq> CHR ''/'') (rev name @ CHR ''/'' # rev a) = rev name"
    using assms by (subst takeWhile_append2) auto
  then show ?thesis
    by (simp add: basename_def)
qed

lemma basename_no_slash:
  assumes "CHR ''/'' \<notin> set name"
  shows "basename name = name"
proof -
  have h: "takeWhile (\<lambda>c. c \<noteq> CHR ''/'') (rev name) = rev name"
    using assms by (subst takeWhile_eq_all_conv) auto
  show ?thesis
    by (simp only: basename_def h rev_rev_ident)
qed

lemma final_path_is_temp_path:
  assumes "CHR ''/'' \<notin> set name"
  shows "path_join videoDir (basename (path_join videoDir name)) = path_join videoDir name"
proof (cases "videoDir = []")
  case True
  then have "path_join videoDir name = name"
    using assms by (cases name) (auto simp: path_join_def)
  then show ?thesis
    using assms by (simp add: basename_no_slash)
next
  case False
  show ?thesis
  proof (cases "last videoDir = CHR ''/''")
    case True
    then obtain a where a: "videoDir = a @ [CHR ''/'']"
      using False by (metis append_butlast_last_id)
    have "name = [] \<or> hd name \<noteq> CHR ''/''"
      using assms by (cases name) auto
    then have j: "path_join videoDir name = a @ CHR ''/'' # name"
      using a by (auto simp: path_join_def)
    show ?thesis
      using j basename_append_slash[OF assms] by simp
  next
    case l: False
    have "name = [] \<or> hd name \<noteq> CHR ''/''"
      using assms by (cases name) auto
    then have j: "path_join videoDir name = videoDir @ CHR ''/'' # name"
      using False l by (auto simp: path_join_def)
    show ?thesis
      using j basename_append_slash[OF assms] by simp
  qed
qed

lemma downloadThumbnail_ok:
  "fst (downloadThumbnail lib u p x) \<longleftrightarrow>
     (\<exists>data x'. urlopen_read lib u x = (Inr data, x') \<and> fst (write_bytes lib p data x') = None)"
  by (auto simp: downloadThumbnail_def split: prod.splits sum.splits option.splits)

lemma run_hooks_libs:
  assumes "float_of lib' = float_of lib"
  shows "run_hooks lib' url ds q = run_hooks lib url ds q"
proof -
  have h: "hook lib' url d q0 = hook lib url d q0" for d q0
    by (simp add: hook_def assms)
  show ?thesis
    by (induction ds arbitrary: q) (simp_all add: h split: sum.splits)
qed

section \<open>Effects of a run\<close>

text \<open>
  What \<^verbatim>\<open>startCase\<close>, the pool, \<^verbatim>\<open>finalize\<close> and \<^verbatim>\<open>updatingUI\<close> change, for every outside
  world.
\<close>

lemma submit_all_effect:
  assumes "submit_all urls video_dir thumb_dir log_file case_id a = (r, a2)"
  shows "executor a2 = executor a \<and> total_items a2 = total_items a \<and>
         done_items a2 = done_items a \<and> failed_items a2 = failed_items a \<and>
         statusBadge a2 = statusBadge a \<and>
         (\<exists>us. futures a2 = futures a @ map (\<lambda>u. (u, video_dir, thumb_dir, log_file, case_id)) us \<and>
               map fst (tree a2) = map fst (tree a) @ us \<and>
               (r = None \<longrightarrow> us = urls \<and> (distinct (map fst (tree a)) \<longrightarrow> distinct (map fst (tree a) @ urls))))"
  using assms
proof (induction urls arbitrary: a)
  case Nil
  then show ?case by simp
next
  case (Cons u urls)
  show ?case
  proof (cases "tree_insert (tree a) u (''Queued'', Str ''0%'')")
    case (Inl e)
    then show ?thesis using Cons.prems by auto
  next
    case (Inr t)
    then have t: "t = tree a @ [(u, ''Queued'', Str ''0%'')]" and nin: "u \<notin> set (map fst (tree a))"
      by (auto simp: tree_insert_def split: if_splits)
    let ?a1 = "a\<lparr>tree := t, futures := futures a @ [(u, video_dir, thumb_dir, log_file, case_id)]\<rparr>"
    have s: "submit_all urls video_dir thumb_dir log_file case_id ?a1 = (r, a2)"
      using Cons.prems Inr by simp
    from Cons.IH[OF s] obtain us where
      k: "executor a2 = executor a" "total_items a2 = total_items a" "done_items a2 = done_items a"
         "failed_items a2 = failed_items a" "statusBadge a2 = statusBadge a"
      and f: "futures a2 = futures ?a1 @ map (\<lambda>u. (u, video_dir, thumb_dir, log_file, case_id)) us"
      and tr: "map fst (tree a2) = map fst (tree ?a1) @ us"
      and n: "r = None \<longrightarrow> us = urls \<and> (distinct (map fst (tree ?a1)) \<longrightarrow> distinct (map fst (tree ?a1) @ urls))"
      by auto
    have "futures a2 = futures a @ map (\<lambda>u. (u, video_dir, thumb_dir, log_file, case_id)) (u # us)"
      using f by simp
    moreover have "map fst (tree a2) = map fst (tree a) @ (u # us)"
      using tr t by simp
    moreover have "r = None \<longrightarrow> u # us = u # urls \<and>
         (distinct (map fst (tree a)) \<longrightarrow> distinct (map fst (tree a) @ (u # urls)))"
      using n t nin by auto
    ultimately show ?thesis
      using k by blast
  qed
qed


lemma saveSetting_effect:
  assumes "saveSetting lib data w = (r, w1)"
  shows "files w1 = files w \<and> UIQueue w1 = UIQueue w \<and> dirs w1 = dirs w \<and> dialogs w1 = dialogs w \<and>
         (r = None \<longrightarrow> settings w1 = Some data) \<and> (r \<noteq> None \<longrightarrow> settings w1 = settings w)"
  using assms by (auto simp: saveSetting_def split: prod.splits option.splits)

lemma startCase_started:
  assumes "startCase lib a w = (st, a', w')" and "finalizer st = Some lf"
  shows "raised st = None \<and>
         lf = path_join (path_join (strip (destinationEntry a)) (strip (caseEntry a)))
                (strip (caseEntry a) @ ''_report.html'') \<and>
         (\<exists>vd td. submitted st =
            map (\<lambda>u. (u, vd, td, lf, strip (caseEntry a))) (url_lines (urlText a))) \<and>
         futures a' = submitted st \<and>
         map fst (tree a') = url_lines (urlText a) \<and>
         distinct (url_lines (urlText a)) \<and>
         total_items a' = length (url_lines (urlText a)) \<and>
         done_items a' = 0 \<and> failed_items a' = 0 \<and>
         executor a' = Some (clamp_threads lib (threadPicker a)) \<and>
         UIQueue w' = UIQueue w \<and> dialogs w' = dialogs w \<and>
         (\<exists>hdr. files w' lf = Some [hdr])"
proof -
  let ?case = "strip (caseEntry a)"
  let ?urls = "url_lines (urlText a)"
  let ?dest = "strip (destinationEntry a)"
  let ?threads = "clamp_threads lib (threadPicker a)"
  let ?base = "path_join ?dest ?case"
  let ?vd = "path_join ?base ''Videos''"
  let ?td = "path_join ?base ''Thumbnails''"
  let ?lf = "path_join ?base (?case @ ''_report.html'')"
  have valid: "?case \<noteq> []" "?urls \<noteq> []" "?dest \<noteq> []"
    using assms by (auto simp: startCase_def Let_def split: if_splits)
  obtain r1 w1 where s: "saveSetting lib (?case, ?threads, ?dest) w = (r1, w1)"
    by (metis prod.exhaust)
  have r1: "r1 = None"
    using assms valid s by (cases r1) (auto simp: startCase_def Let_def)
  obtain r2 made1 x2 where m1: "makedirs lib ?vd (outside w1) = ((r2, made1), x2)"
    by (metis prod.exhaust)
  have r2: "r2 = None"
    using assms valid s r1 m1 by (cases r2) (auto simp: startCase_def Let_def)
  obtain r3 made2 x3 where m2: "makedirs lib ?td x2 = ((r3, made2), x3)"
    by (metis prod.exhaust)
  have r3: "r3 = None"
    using assms valid s r1 m1 r2 m2 by (cases r3) (auto simp: startCase_def Let_def)
  obtain ip1 ip2 x4 where ip: "checkIPaddress lib x3 = ((ip1, ip2), x4)"
    by (metis prod.exhaust)
  let ?ips = "if ip1 = ip2 \<and> ip1 \<noteq> ''ERROR'' then ''VERIFIED'' else ''MISMATCH''"
  let ?w4 = "w1\<lparr>outside := x4, dirs := dirs w1 @ made1 @ made2\<rparr>"
  obtain r5 w5 where c: "createHTMLlog lib ?lf ?case ip1 ip2 ?ips ?w4 = (r5, w5)"
    by (metis prod.exhaust)
  have r5: "r5 = None"
    using assms valid s r1 m1 r2 m2 r3 ip c by (cases r5) (auto simp: startCase_def Let_def)
  let ?a1 = "a\<lparr>total_items := length ?urls, done_items := 0, failed_items := 0,
                statusBadge := ''RUNNING'', tree := [], futures := []\<rparr>"
  have pool: "ThreadPoolExecutor ?threads = Inr ?threads"
    by (auto simp: ThreadPoolExecutor_def clamp_threads_def split: sum.splits)
  obtain r6 a2 where sub: "submit_all ?urls ?vd ?td ?lf ?case (?a1\<lparr>executor := Some ?threads\<rparr>) = (r6, a2)"
    by (metis prod.exhaust)
  have res: "(st, a', w') = (case r6 of
                Some e \<Rightarrow> (\<lparr>raised = Some e, submitted = futures a2, finalizer = None\<rparr>, a2, w5)
              | None \<Rightarrow> (\<lparr>raised = None, submitted = futures a2, finalizer = Some ?lf\<rparr>, a2, w5))"
    using assms(1) valid s r1 m1 r2 m2 r3 ip c r5 pool sub
    by (simp add: startCase_def Let_def)
  have r6: "r6 = None"
    using res assms(2) by (cases r6) auto
  then have st: "st = \<lparr>raised = None, submitted = futures a2, finalizer = Some ?lf\<rparr>" "a' = a2" "w' = w5"
    using res by simp_all
  from submit_all_effect[OF sub] obtain us where
    k: "executor a2 = Some ?threads" "total_items a2 = length ?urls" "done_items a2 = 0"
       "failed_items a2 = 0"
    and f0: "futures a2 = map (\<lambda>u. (u, ?vd, ?td, ?lf, ?case)) us"
    and tr0: "map fst (tree a2) = us"
    and n0: "r6 = None \<longrightarrow> us = ?urls \<and> distinct ?urls"
    by force
  have us: "us = ?urls" and d: "distinct ?urls"
    using n0 r6 by simp_all
  have f: "futures a2 = map (\<lambda>u. (u, ?vd, ?td, ?lf, ?case)) ?urls"
    and tr: "map fst (tree a2) = ?urls"
    using f0 tr0 us by simp_all
  have w1: "files w1 = files w" "UIQueue w1 = UIQueue w" "dialogs w1 = dialogs w"
    using saveSetting_effect[OF s] by simp_all
  from write_log_effect[OF c[unfolded createHTMLlog_def]] r5
  have w5: "UIQueue w5 = UIQueue w" "dialogs w5 = dialogs w" "\<exists>hdr. files w5 ?lf = Some [hdr]"
    using w1 by auto
  have sub_st: "\<exists>vd td. submitted st = map (\<lambda>u. (u, vd, td, lf, ?case)) ?urls"
    using st f assms(2) by auto
  show ?thesis
    using st k f tr d w5 assms(2) sub_st by simp
qed


lemma run_jobs_effect:
  assumes "run_jobs lib js w = (rs, w')" and "\<forall>j \<in> set js. fst (snd (snd (snd j))) = lf"
  shows "length rs = length js \<and>
         settings w' = settings w \<and> dirs w' = dirs w \<and> dialogs w' = dialogs w \<and>
         (\<forall>p. p \<noteq> lf \<longrightarrow> files w' p = files w p) \<and>
         (\<exists>evs. UIQueue w' = UIQueue w @ evs \<and>
                (\<forall>ev \<in> set evs. fst ev \<in> fst ` set js \<and> (progress ev \<or> terminal ev)) \<and>
                map fst (filter terminal evs) = map fst (returned js rs)) \<and>
         (\<exists>rows. written w' lf = written w lf @ rows \<and> length rows = length (returned js rs))"
  using assms
proof (induction js arbitrary: w rs w')
  case Nil
  then show ?case by (simp add: returned_def)
next
  case (Cons j js)
  obtain url vd td lg c where j: "j = (url, vd, td, lg, c)"
    by (metis prod.exhaust)
  have lg: "lg = lf"
    using Cons.prems(2) j by simp
  obtain r w1 where p: "processVideo lib url vd td lf c w = (r, w1)"
    by (metis prod.exhaust)
  obtain rs1 w2 where q: "run_jobs lib js w1 = (rs1, w2)"
    by (metis prod.exhaust)
  have res: "rs = r # rs1" "w' = w2"
    using Cons.prems(1) j lg p q by simp_all
  from pv_effect[OF p] obtain evs1 rows1 where
    k1: "settings w1 = settings w" "dirs w1 = dirs w" "dialogs w1 = dialogs w"
        "\<forall>p. p \<noteq> lf \<longrightarrow> files w1 p = files w p"
    and e1: "UIQueue w1 = UIQueue w @ evs1"
        "\<forall>ev \<in> set evs1. fst ev = url \<and> (progress ev \<or> terminal ev)"
        "map fst (filter terminal evs1) = (if r = None then [url] else [])"
    and f1: "written w1 lf = written w lf @ rows1" "length rows1 = (if r = None then 1 else 0)"
    by blast
  have "\<forall>j \<in> set js. fst (snd (snd (snd j))) = lf"
    using Cons.prems(2) by simp
  from Cons.IH[OF q this] obtain evs2 rows2 where
    l2: "length rs1 = length js"
    and k2: "settings w2 = settings w1" "dirs w2 = dirs w1" "dialogs w2 = dialogs w1"
        "\<forall>p. p \<noteq> lf \<longrightarrow> files w2 p = files w1 p"
    and e2: "UIQueue w2 = UIQueue w1 @ evs2"
        "\<forall>ev \<in> set evs2. fst ev \<in> fst ` set js \<and> (progress ev \<or> terminal ev)"
        "map fst (filter terminal evs2) = map fst (returned js rs1)"
    and f2: "written w2 lf = written w1 lf @ rows2" "length rows2 = length (returned js rs1)"
    by blast
  have ret: "returned (j # js) (r # rs1) = (if r = None then [j] else []) @ returned js rs1"
    by (simp add: returned_def)
  have "UIQueue w' = UIQueue w @ (evs1 @ evs2)"
    using res e1 e2 by simp
  moreover have "\<forall>ev \<in> set (evs1 @ evs2). fst ev \<in> fst ` set (j # js) \<and> (progress ev \<or> terminal ev)"
    using e1 e2 j by auto
  moreover have "map fst (filter terminal (evs1 @ evs2)) = map fst (returned (j # js) rs)"
    using e1 e2 ret res j by simp
  moreover have "written w' lf = written w lf @ (rows1 @ rows2)"
    using res f1 f2 by simp
  moreover have "length (rows1 @ rows2) = length (returned (j # js) rs)"
    using f1 f2 ret res by simp
  moreover have "length rs = length (j # js)"
    using res l2 by simp
  moreover have "settings w' = settings w" "dirs w' = dirs w" "dialogs w' = dialogs w"
    "\<forall>p. p \<noteq> lf \<longrightarrow> files w' p = files w p"
    using res k1 k2 by simp_all
  ultimately show ?case
    by blast
qed

lemma finalize_effect:
  assumes "finalize lib lf w = (r, w')"
  shows "r = fst (open_text lib lf True (outside w)) \<and>
         (r = None \<longrightarrow> (\<exists>stamp. written w' lf = written w lf @ [report_footer stamp]) \<and>
                        UIQueue w' = UIQueue w @ [(''__SYSTEM__'', ''FINISHED'', Str lf)]) \<and>
         (r \<noteq> None \<longrightarrow> written w' lf = written w lf \<and> UIQueue w' = UIQueue w) \<and>
         dialogs w' = dialogs w"
proof -
  obtain r1 w1 where c: "write_log lib lf True report_footer w = (r1, w1)"
    by (metis prod.exhaust)
  have res: "(r, w') = (case r1 of Some e \<Rightarrow> (Some e, w1)
      | None \<Rightarrow> (None, w1\<lparr>UIQueue := UIQueue w1 @ [(''__SYSTEM__'', ''FINISHED'', Str lf)]\<rparr>))"
    using assms c by (simp add: finalize_def closeHTMLlog_def)
  from write_log_effect[OF c]
  have e: "UIQueue w1 = UIQueue w" "dialogs w1 = dialogs w" "r1 = fst (open_text lib lf True (outside w))"
    "r1 \<noteq> None \<longrightarrow> files w1 = files w"
    "r1 = None \<longrightarrow> (\<exists>stamp. files w1 lf = Some (written w lf @ [report_footer stamp]))"
    by simp_all
  show ?thesis
  proof (cases r1)
    case None
    then obtain stamp where "files w1 lf = Some (written w lf @ [report_footer stamp])"
      using e by blast
    then have "written w' lf = written w lf @ [report_footer stamp]"
      using res None by (simp add: written_def)
    then show ?thesis
      using res None e by auto
  next
    case (Some x)
    then have "written w' lf = written w lf"
      using res e by (simp add: written_def)
    then show ?thesis
      using res Some e by auto
  qed
qed


lemma tree_item_keys:
  assumes "iid \<in> set (map fst t)"
  shows "\<exists>t'. tree_item t iid vals = Inr t' \<and> map fst t' = map fst t"
proof -
  have "map fst (map (\<lambda>(i, v). if i = iid then (i, vals) else (i, v)) t) = map fst t"
    by (induction t) auto
  then show ?thesis
    using assms by (simp add: tree_item_def)
qed

lemma ui_event_effect:
  assumes "finished ev \<or> ((progress ev \<or> terminal ev) \<and> fst ev \<in> set (map fst (tree a)))"
  shows "\<exists>a' w'. ui_event ev a w = (None, a', w') \<and>
           map fst (tree a') = map fst (tree a) \<and>
           done_items a' + failed_items a' =
             done_items a + failed_items a + (if terminal ev then 1 else 0) \<and>
           total_items a' = total_items a \<and> UIQueue w' = UIQueue w \<and> files w' = files w"
proof -
  obtain url tag dat where ev: "ev = (url, tag, dat)"
    by (metis prod.exhaust)
  show ?thesis
  proof (cases "finished ev")
    case True
    then show ?thesis
      using ev by (simp add: ui_event_def finished_def terminal_def showinfo_def)
  next
    case False
    then have in_tree: "url \<in> set (map fst (tree a))"
      and kind: "tag = ''PROGRESS'' \<or> tag = ''MERGING'' \<or> tag = ''DONE'' \<or> tag = ''FAILED''"
      using assms ev by (auto simp: progress_def terminal_def)
    have nf: "\<not> (url = ''__SYSTEM__'' \<and> tag = ''FINISHED'')"
      using kind by auto
    obtain t' where t': "tree_item (tree a) url (''DOWNLOADING'', dat) = Inr t'" "map fst t' = map fst (tree a)"
      using tree_item_keys[OF in_tree] by blast
    obtain t2 where t2: "tree_item (tree a) url (''MERGING'', dat) = Inr t2" "map fst t2 = map fst (tree a)"
      using tree_item_keys[OF in_tree] by blast
    obtain t3 where t3: "tree_item (tree a) url (''VERIFIED'', dat) = Inr t3" "map fst t3 = map fst (tree a)"
      using tree_item_keys[OF in_tree] by blast
    obtain t4 where t4: "tree_item (tree a) url (''FAILED'', dat) = Inr t4" "map fst t4 = map fst (tree a)"
      using tree_item_keys[OF in_tree] by blast
    from kind show ?thesis
    proof (elim disjE)
      assume "tag = ''PROGRESS''"
      then show ?thesis using ev t' by (simp add: ui_event_def terminal_def)
    next
      assume "tag = ''MERGING''"
      then show ?thesis using ev t2 by (simp add: ui_event_def terminal_def)
    next
      assume "tag = ''DONE''"
      then show ?thesis using ev t3 by (simp add: ui_event_def terminal_def Let_def)
    next
      assume "tag = ''FAILED''"
      then show ?thesis using ev t4 by (simp add: ui_event_def terminal_def Let_def)
    qed
  qed
qed

lemma drain_effect:
  assumes "\<forall>ev \<in> set evs. finished ev \<or>
             ((progress ev \<or> terminal ev) \<and> fst ev \<in> set (map fst (tree a)))"
  shows "\<exists>a' w'. drain evs a w = (None, a', w') \<and>
           done_items a' + failed_items a' =
             done_items a + failed_items a + length (filter terminal evs) \<and>
           total_items a' = total_items a \<and> UIQueue w' = [] \<and> files w' = files w"
  using assms
proof (induction evs arbitrary: a w)
  case Nil
  then show ?case by simp
next
  case (Cons ev evs)
  have "finished ev \<or> ((progress ev \<or> terminal ev) \<and> fst ev \<in> set (map fst (tree a)))"
    using Cons.prems by simp
  from ui_event_effect[OF this, of "w\<lparr>UIQueue := evs\<rparr>"] obtain a1 w1 where
    u: "ui_event ev a (w\<lparr>UIQueue := evs\<rparr>) = (None, a1, w1)"
    and k: "map fst (tree a1) = map fst (tree a)"
       "done_items a1 + failed_items a1 = done_items a + failed_items a + (if terminal ev then 1 else 0)"
       "total_items a1 = total_items a" "files w1 = files w"
    by auto
  have "\<forall>ev \<in> set evs. finished ev \<or>
          ((progress ev \<or> terminal ev) \<and> fst ev \<in> set (map fst (tree a1)))"
    using Cons.prems k by simp
  from Cons.IH[OF this, of w1] obtain a2 w2 where
    d: "drain evs a1 w1 = (None, a2, w2)"
    and k2: "done_items a2 + failed_items a2 = done_items a1 + failed_items a1 + length (filter terminal evs)"
       "total_items a2 = total_items a1" "UIQueue w2 = []" "files w2 = files w1"
    by blast
  have "drain (ev # evs) a w = (None, a2, w2)"
    using u d by simp
  then show ?case
    using k k2 by auto
qed

lemma submultiset_add: "(A::'a multiset) \<subseteq># B \<Longrightarrow> A \<subseteq># add_mset x B"
  using subset_mset.trans by fastforce

lemma returned_submultiset: "mset (returned js rs) \<subseteq># mset js"
proof (induction js arbitrary: rs)
  case Nil
  then show ?case by (simp add: returned_def)
next
  case (Cons j js)
  show ?case
  proof (cases rs)
    case Nil
    then show ?thesis by (simp add: returned_def)
  next
    case (Cons r rs1)
    have ih: "mset (returned js rs1) \<subseteq># mset js"
      by (rule Cons.IH)
    have e: "returned (j # js) (r # rs1) = (if r = None then [j] else []) @ returned js rs1"
      by (simp add: returned_def)
    show ?thesis
      using ih submultiset_add[OF ih, of j] Cons e by simp
  qed
qed

lemma pv_returns:
  assumes "\<forall>x. fst (open_text lib logFile True x) = None"
  shows "fst (processVideo lib url videoDir thumbDir logFile case_id w) = None"
proof -
  have "fst (write_log lib logFile True render w0) = None" for render w0
  proof (cases "open_text lib logFile True (outside w0)")
    case (Pair r x)
    then have "r = None"
      using assms by (metis fst_conv)
    then show ?thesis
      using Pair by (simp add: write_log_def Let_def split: prod.splits)
  qed
  then have wl: "write_log lib logFile True render w0 = (Some e, w1) \<Longrightarrow> False" for render w0 e w1
    by (metis fst_conv option.distinct(1))
  show ?thesis
    by (auto simp: processVideo_def split: prod.splits option.splits dest: wl)
qed

lemma run_jobs_all_return:
  assumes "\<forall>x. fst (open_text lib lf True x) = None"
    and "\<forall>j \<in> set js. fst (snd (snd (snd j))) = lf"
    and "run_jobs lib js w = (rs, w')"
  shows "returned js rs = js"
  using assms(2,3)
proof (induction js arbitrary: w rs w')
  case Nil
  then show ?case by (simp add: returned_def)
next
  case (Cons j js)
  obtain url vd td lg c where j: "j = (url, vd, td, lg, c)"
    by (metis prod.exhaust)
  have lg: "lg = lf"
    using Cons.prems(1) j by simp
  obtain r w1 where p: "processVideo lib url vd td lf c w = (r, w1)"
    by (metis prod.exhaust)
  have r: "r = None"
    using pv_returns[OF assms(1), of url vd td c w] p by simp
  obtain rs1 w2 where q: "run_jobs lib js w1 = (rs1, w2)"
    by (metis prod.exhaust)
  have res: "rs = r # rs1"
    using Cons.prems(2) j lg p q by simp
  have "returned js rs1 = js"
    using Cons.IH[OF _ q] Cons.prems(1) by simp
  then show ?case
    using res r by (simp add: returned_def)
qed


lemma run_case_started:
  assumes "run_case lib sched a w = ((st, rs, fr), a', w')" and "finalizer st = Some lf"
  shows "\<exists>w1 w2. startCase lib a w = (st, a', w1) \<and>
           run_jobs lib (sched (submitted st)) w1 = (rs, w2) \<and>
           finalize lib lf w2 = (fr, w')"
proof -
  obtain st0 a1 w1 where s: "startCase lib a w = (st0, a1, w1)"
    by (metis prod.exhaust)
  obtain rs0 w2 where j: "run_jobs lib (sched (submitted st0)) w1 = (rs0, w2)"
    by (metis prod.exhaust)
  obtain r w3 where f: "finalize lib lf w2 = (r, w3)"
    by (metis prod.exhaust)
  have "st0 = st"
    using assms(1) s j by (auto simp: run_case_def Let_def split: option.splits prod.splits)
  then show ?thesis
    using assms s j f by (auto simp: run_case_def Let_def split: option.splits prod.splits)
qed


lemma clamp_threads_range: "1 \<le> clamp_threads lib entry \<and> clamp_threads lib entry \<le> 32"
  by (auto simp: clamp_threads_def split: sum.splits)

lemma startCase_submitted:
  assumes "startCase lib a w = (st, a', w')" and "submitted st \<noteq> []"
  shows "executor a' = Some (clamp_threads lib (threadPicker a)) \<and>
         (\<exists>a1 vd td lf r.
            executor a1 = Some (clamp_threads lib (threadPicker a)) \<and> futures a1 = [] \<and>
            submit_all (url_lines (urlText a)) vd td lf (strip (caseEntry a)) a1 = (r, a'))"
proof -
  let ?case = "strip (caseEntry a)"
  let ?urls = "url_lines (urlText a)"
  let ?dest = "strip (destinationEntry a)"
  let ?threads = "clamp_threads lib (threadPicker a)"
  let ?base = "path_join ?dest ?case"
  let ?vd = "path_join ?base ''Videos''"
  let ?td = "path_join ?base ''Thumbnails''"
  let ?lf = "path_join ?base (?case @ ''_report.html'')"
  have valid: "?case \<noteq> []" "?urls \<noteq> []" "?dest \<noteq> []"
    using assms by (auto simp: startCase_def Let_def split: if_splits)
  obtain r1 w1 where s: "saveSetting lib (?case, ?threads, ?dest) w = (r1, w1)"
    by (metis prod.exhaust)
  have r1: "r1 = None"
    using assms valid s by (cases r1) (auto simp: startCase_def Let_def)
  obtain r2 made1 x2 where m1: "makedirs lib ?vd (outside w1) = ((r2, made1), x2)"
    by (metis prod.exhaust)
  have r2: "r2 = None"
    using assms valid s r1 m1 by (cases r2) (auto simp: startCase_def Let_def)
  obtain r3 made2 x3 where m2: "makedirs lib ?td x2 = ((r3, made2), x3)"
    by (metis prod.exhaust)
  have r3: "r3 = None"
    using assms valid s r1 m1 r2 m2 by (cases r3) (auto simp: startCase_def Let_def)
  obtain ip1 ip2 x4 where ip: "checkIPaddress lib x3 = ((ip1, ip2), x4)"
    by (metis prod.exhaust)
  let ?ips = "if ip1 = ip2 \<and> ip1 \<noteq> ''ERROR'' then ''VERIFIED'' else ''MISMATCH''"
  let ?w4 = "w1\<lparr>outside := x4, dirs := dirs w1 @ made1 @ made2\<rparr>"
  obtain r5 w5 where c: "createHTMLlog lib ?lf ?case ip1 ip2 ?ips ?w4 = (r5, w5)"
    by (metis prod.exhaust)
  have r5: "r5 = None"
    using assms valid s r1 m1 r2 m2 r3 ip c by (cases r5) (auto simp: startCase_def Let_def)
  let ?a1 = "a\<lparr>total_items := length ?urls, done_items := 0, failed_items := 0,
                statusBadge := ''RUNNING'', tree := [], futures := []\<rparr>"
  have pool: "ThreadPoolExecutor ?threads = Inr ?threads"
    using clamp_threads_range[of lib "threadPicker a"] by (simp add: ThreadPoolExecutor_def)
  obtain r6 a2 where sub: "submit_all ?urls ?vd ?td ?lf ?case (?a1\<lparr>executor := Some ?threads\<rparr>) = (r6, a2)"
    by (metis prod.exhaust)
  have a': "a' = a2"
    using assms(1) valid s r1 m1 r2 m2 r3 ip c r5 pool sub
    by (cases r6) (simp_all add: startCase_def Let_def)
  have before: "executor (?a1\<lparr>executor := Some ?threads\<rparr>) = Some ?threads"
    "futures (?a1\<lparr>executor := Some ?threads\<rparr>) = []"
    by simp_all
  have "executor a' = Some ?threads"
    using a' submit_all_effect[OF sub] by simp
  then show ?thesis
    using before sub a' by blast
qed

text \<open>The definitions to unfold when a run is evaluated on a concrete input.\<close>

lemmas run_defs = run_case_def startCase_def finalize_def closeHTMLlog_def createHTMLlog_def
  saveSetting_def checkIPaddress_def check_ip_def clamp_threads_def ThreadPoolExecutor_def
  tree_insert_def url_lines_def showerror_def
  processVideo_def processVideo_try_def processVideo_fetch_def processVideo_verify_def
  sha256Hash_def toRelHref_def write_log_def utcStamp_def downloadThumbnail_def
  hook_def strip_def remove_char_def replace_char_def isspace_def Let_def path_join_def
  basename_def dirname_def read_blocks.simps ydl_options_def ffmpegPath_def
  world0_def form_def demo_def demo_twice_def

lemma demo_run:
  "fst (run_case stub rev (demo ''2'') world0) =
   (\<lparr>raised = None,
     submitted = [(''https://example/videoA'', ''/d/CASE007/Videos'', ''/d/CASE007/Thumbnails'',
                   ''/d/CASE007/CASE007_report.html'', ''CASE007''),
                  (''https://example/videoB'', ''/d/CASE007/Videos'', ''/d/CASE007/Thumbnails'',
                   ''/d/CASE007/CASE007_report.html'', ''CASE007'')],
     finalizer = Some ''/d/CASE007/CASE007_report.html''\<rparr>, [None, None], None)"
  by (simp add: run_defs stub_def)

lemmas ui_defs = updatingUI_def ui_event_def tree_item_def showinfo_def

section \<open>Theorems\<close>

text \<open>
  C1, as amended. When the two digests differ and the row can be written, the job
  appends exactly one row to the report. Its status is \<^verbatim>\<open>HASH_MISMATCH\<close>, a tag that is
  neither \<^verbatim>\<open>VERIFIED\<close> nor \<^verbatim>\<open>FAILED\<close>, styled with the class \<^verbatim>\<open>failed\<close>; it names the final
  file and carries the digest taken after the move, and not the one taken before.
  Exactly one terminal event is then put for the URL.
\<close>

theorem hash_mismatch_row:
  assumes "processVideo_fetch lib url videoDir thumbDir case_id w =
             (Inr (videoTitle, thumbFilename, temp_path), w1)"
    and "processVideo_verify lib videoDir temp_path (outside w1) = (Inr (finalPath, hash1, hash2), x2)"
    and "hash1 \<noteq> hash2"
    and "toRelHref lib finalPath (dirname logFile) x2 = Inr video_href"
    and "open_text lib logFile True x2 = (None, x3)"
  shows "\<exists>stamp w'. processVideo lib url videoDir thumbDir logFile case_id w = (None, w') \<and>
           files w' logFile =
             Some (written w logFile @
                   [video_row stamp thumbFilename video_href videoTitle (basename finalPath) url
                      ''failed'' ''HASH_MISMATCH'' hash2]) \<and>
           ''HASH_MISMATCH'' \<noteq> ''VERIFIED'' \<and> ''HASH_MISMATCH'' \<noteq> ''FAILED'' \<and>
           (\<exists>ev. UIQueue w' = UIQueue w1 @ [ev] \<and> fst ev = url \<and> terminal ev)"
proof -
  have f: "files w1 = files w"
    using fetch_cases[OF assms(1)] by simp
  then have wr: "written w1 logFile = written w logFile"
    by (simp add: written_def)
  show ?thesis
    using assms wr
    by (auto simp: processVideo_def processVideo_try_def write_log_def Let_def written_def terminal_def
             split: prod.splits option.splits)
qed


theorem hash_mismatch_row_witness:
  "processVideo_fetch corrupting ''u'' ''/d/C7/Videos'' ''/d/C7/Thumbnails'' ''C7'' world0 =
     (Inr (''A'', ''idA_thumbnail.jpg'', ''/tmp/C7_A.mp4''),
      world0\<lparr>UIQueue := [(''u'', ''PROGRESS'', Num (Finite 42.5)),
                          (''u'', ''PROGRESS'', Num (Finite 0)),
                          (''u'', ''MERGING'', Num (Finite 99))]\<rparr>) \<and>
   processVideo_verify corrupting ''/d/C7/Videos'' ''/tmp/C7_A.mp4'' [] =
     (Inr (''/d/C7/Videos/C7_A.mp4'', ''content'', ''conten''),
      [''read /tmp/C7_A.mp4'', ''move /tmp/C7_A.mp4 /d/C7/Videos/C7_A.mp4'',
       ''read /d/C7/Videos/C7_A.mp4'']) \<and>
   ''content'' \<noteq> ''conten'' \<and>
   (\<exists>stamp w'. processVideo corrupting ''u'' ''/d/C7/Videos'' ''/d/C7/Thumbnails''
                   ''/d/C7/C7_report.html'' ''C7'' world0 = (None, w') \<and>
      files w' ''/d/C7/C7_report.html'' =
        Some [video_row stamp ''idA_thumbnail.jpg'' ''Videos/C7_A.mp4'' ''A'' ''C7_A.mp4'' ''u''
                ''failed'' ''HASH_MISMATCH'' ''conten''])"
proof -
  let ?q = "[(''u'', ''PROGRESS'', Num (Finite 42.5)), (''u'', ''PROGRESS'', Num (Finite 0)),
             (''u'', ''MERGING'', Num (Finite 99))]"
  let ?x = "[''read /tmp/C7_A.mp4'', ''move /tmp/C7_A.mp4 /d/C7/Videos/C7_A.mp4'',
             ''read /d/C7/Videos/C7_A.mp4'']"
  have f: "processVideo_fetch corrupting ''u'' ''/d/C7/Videos'' ''/d/C7/Thumbnails'' ''C7'' world0 =
     (Inr (''A'', ''idA_thumbnail.jpg'', ''/tmp/C7_A.mp4''), world0\<lparr>UIQueue := ?q\<rparr>)"
    by (simp add: processVideo_fetch_def corrupting_def stub_def world0_def hook_def strip_def
        remove_char_def isspace_def Let_def downloadThumbnail_def)
  have v: "processVideo_verify corrupting ''/d/C7/Videos'' ''/tmp/C7_A.mp4''
             (outside (world0\<lparr>UIQueue := ?q\<rparr>)) =
           (Inr (''/d/C7/Videos/C7_A.mp4'', ''content'', ''conten''), ?x)"
    by (simp add: processVideo_verify_def sha256Hash_def corrupting_def stub_def world0_def
        path_join_def basename_def read_blocks.simps Let_def)
  have n: "''content'' \<noteq> ''conten''"
    by simp
  have h: "toRelHref corrupting ''/d/C7/Videos/C7_A.mp4'' (dirname ''/d/C7/C7_report.html'') ?x =
           Inr ''Videos/C7_A.mp4''"
    by (simp add: toRelHref_def corrupting_def stub_def basename_def replace_char_def)
  have o: "open_text corrupting ''/d/C7/C7_report.html'' True ?x = (None, ?x)"
    by (simp add: corrupting_def stub_def)
  show ?thesis
    using f v n hash_mismatch_row [OF f v n h o]
    by (auto simp: world0_def written_def basename_def)
qed

text \<open>
  C1 as stated fails: a job whose digests differ puts the same DONE event as a job whose
  digests agree, and the interface shows it as VERIFIED and counts it as done.
\<close>

theorem mismatch_event_is_done:
  "fst (processVideo_verify corrupting ''/d/C7/Videos'' ''/tmp/C7_A.mp4'' []) =
     Inr (''/d/C7/Videos/C7_A.mp4'', ''content'', ''conten'') \<and>
   fst (processVideo_verify truncated ''/d/C7/Videos'' ''/d/C7/Videos/C7_A.mp4'' []) =
     Inr (''/d/C7/Videos/C7_A.mp4'', ''conten'', ''conten'') \<and>
   UIQueue (snd (processVideo corrupting ''u'' ''/d/C7/Videos'' ''/d/C7/Thumbnails''
                   ''/d/C7/C7_report.html'' ''C7'' world0)) =
     [(''u'', ''PROGRESS'', Num (Finite 42.5)), (''u'', ''PROGRESS'', Num (Finite 0)),
      (''u'', ''MERGING'', Num (Finite 99)), (''u'', ''DONE'', Str ''conten'')] \<and>
   UIQueue (snd (processVideo truncated ''u'' ''/d/C7/Videos'' ''/d/C7/Thumbnails''
                   ''/d/C7/C7_report.html'' ''C7'' world0)) =
     [(''u'', ''PROGRESS'', Num (Finite 42.5)), (''u'', ''PROGRESS'', Num (Finite 0)),
      (''u'', ''MERGING'', Num (Finite 99)), (''u'', ''DONE'', Str ''conten'')] \<and>
   ui_event (''u'', ''DONE'', Str ''conten'')
     ((form ''C7'' ''2'' ''u'' ''/d'')\<lparr>tree := [(''u'', ''Queued'', Str ''0%'')]\<rparr>) world0 =
     (None, (form ''C7'' ''2'' ''u'' ''/d'')\<lparr>done_items := 1,
                                               tree := [(''u'', ''VERIFIED'', Str ''conten'')]\<rparr>,
      world0)"
  by (simp add: processVideo_def processVideo_try_def processVideo_fetch_def processVideo_verify_def
      sha256Hash_def toRelHref_def write_log_def utcStamp_def downloadThumbnail_def
      corrupting_def truncated_def stub_def world0_def hook_def strip_def remove_char_def
      replace_char_def isspace_def Let_def path_join_def basename_def dirname_def
      read_blocks.simps ydl_options_def ffmpegPath_def ui_event_def tree_item_def form_def)

text \<open>
  C2, as amended. Take a run that started: the set-up succeeded and every URL was
  inserted and submitted, which needs the URLs to be pairwise distinct. Let the pool run
  each submitted job once, in any order, and let the queue be empty at the start. Then
  no URL has two terminal events; the terminal events in the queue are those of the
  jobs that returned, one each, and a job that ended with an exception has none; the
  report holds the header, one row for each job that returned, and the footer if it
  could be written; and once the interface has emptied the queue, done + failed is the
  number of jobs that returned. When appending to the report never raises, every job
  returns, so that number is the number of URLs.
\<close>

theorem one_terminal_event_per_returned_job:
  assumes "run_case lib sched a w = ((st, rs, fr), a', w')"
    and "finalizer st = Some log_file"
    and "mset (sched (submitted st)) = mset (submitted st)"
    and "UIQueue w = []"
  shows "map fst (submitted st) = url_lines (urlText a) \<and>
         distinct (url_lines (urlText a)) \<and>
         mset (map fst (filter terminal (UIQueue w'))) \<subseteq># mset (url_lines (urlText a)) \<and>
         map fst (filter terminal (UIQueue w')) = map fst (returned (sched (submitted st)) rs) \<and>
         (\<exists>hdr rows tail. written w' log_file = hdr # rows @ tail \<and>
            length rows = length (returned (sched (submitted st)) rs) \<and>
            length tail = (if fr = None then 1 else 0)) \<and>
         (\<exists>a'' w''. updatingUI a' w' = (None, a'', w'') \<and>
            done_items a'' + failed_items a'' = length (returned (sched (submitted st)) rs) \<and>
            total_items a'' = length (url_lines (urlText a))) \<and>
         ((\<forall>x. fst (open_text lib log_file True x) = None) \<longrightarrow>
            length (returned (sched (submitted st)) rs) = length (url_lines (urlText a)))"
proof -
  let ?urls = "url_lines (urlText a)"
  let ?js = "sched (submitted st)"
  from run_case_started[OF assms(1,2)] obtain w1 w2 where
    s: "startCase lib a w = (st, a', w1)"
    and j: "run_jobs lib ?js w1 = (rs, w2)"
    and f: "finalize lib log_file w2 = (fr, w')"
    by blast
  from startCase_started[OF s assms(2)] obtain vd td hdr where
    sub: "submitted st = map (\<lambda>u. (u, vd, td, log_file, strip (caseEntry a))) ?urls"
    and tr: "map fst (tree a') = ?urls" and d: "distinct ?urls"
    and cnt: "total_items a' = length ?urls" "done_items a' = 0" "failed_items a' = 0"
    and q1: "UIQueue w1 = UIQueue w" and h: "files w1 log_file = Some [hdr]"
    by blast
  have urls: "map fst (submitted st) = ?urls"
    using sub by (simp add: comp_def)
  have set_js: "set ?js = set (submitted st)"
    using assms(3) by (rule mset_eq_setD)
  have lf: "\<forall>j \<in> set ?js. fst (snd (snd (snd j))) = log_file"
    using set_js sub by auto
  have len_js: "length ?js = length ?urls"
    using assms(3) sub by (metis length_map size_mset)
  from run_jobs_effect[OF j lf] obtain evs rows where
    l: "length rs = length ?js"
    and e: "UIQueue w2 = UIQueue w1 @ evs"
       "\<forall>ev \<in> set evs. fst ev \<in> fst ` set ?js \<and> (progress ev \<or> terminal ev)"
       "map fst (filter terminal evs) = map fst (returned ?js rs)"
    and r: "written w2 log_file = written w1 log_file @ rows" "length rows = length (returned ?js rs)"
    by blast
  have w1h: "written w1 log_file = [hdr]"
    using h by (simp add: written_def)
  from finalize_effect[OF f]
  have fe: "fr = None \<longrightarrow> (\<exists>stamp. written w' log_file = written w2 log_file @ [report_footer stamp]) \<and>
                        UIQueue w' = UIQueue w2 @ [(''__SYSTEM__'', ''FINISHED'', Str log_file)]"
    "fr \<noteq> None \<longrightarrow> written w' log_file = written w2 log_file \<and> UIQueue w' = UIQueue w2"
    by simp_all
  let ?fin = "if fr = None then [(''__SYSTEM__'', ''FINISHED'', Str log_file)] else []"
  have q': "UIQueue w' = evs @ ?fin"
    using fe e q1 assms(4) by auto
  have ft: "filter terminal (UIQueue w') = filter terminal evs"
    using q' by (simp add: terminal_def)
  have c4: "map fst (filter terminal (UIQueue w')) = map fst (returned ?js rs)"
    using ft e by simp
  have "mset (map fst (returned ?js rs)) \<subseteq># mset (map fst ?js)"
    using image_mset_subseteq_mono[OF returned_submultiset[of ?js rs], of fst] by simp
  moreover have "mset (map fst ?js) = mset ?urls"
    using assms(3) urls by (metis mset_map)
  ultimately have c3: "mset (map fst (filter terminal (UIQueue w'))) \<subseteq># mset ?urls"
    using c4 by simp
  have c5: "\<exists>hdr rows tail. written w' log_file = hdr # rows @ tail \<and>
            length rows = length (returned ?js rs) \<and> length tail = (if fr = None then 1 else 0)"
  proof (cases fr)
    case None
    then obtain stamp where "written w' log_file = written w2 log_file @ [report_footer stamp]"
      using fe by blast
    then have "written w' log_file = hdr # rows @ [report_footer stamp]"
      using r w1h by simp
    then show ?thesis
      using r None by force
  next
    case (Some x)
    then have "written w' log_file = hdr # rows @ []"
      using fe r w1h by simp
    then show ?thesis
      using r Some by force
  qed
  have in_tree: "\<forall>ev \<in> set (UIQueue w'). finished ev \<or>
         ((progress ev \<or> terminal ev) \<and> fst ev \<in> set (map fst (tree a')))"
  proof
    fix ev assume "ev \<in> set (UIQueue w')"
    then have "ev \<in> set evs \<or> ev = (''__SYSTEM__'', ''FINISHED'', Str log_file)"
      using q' by (auto split: if_splits)
    then show "finished ev \<or> ((progress ev \<or> terminal ev) \<and> fst ev \<in> set (map fst (tree a')))"
    proof
      assume m: "ev \<in> set evs"
      then have "fst ev \<in> fst ` set (submitted st)"
        using e set_js by auto
      then have "fst ev \<in> set (map fst (tree a'))"
        using tr urls by (metis list.set_map)
      then show ?thesis
        using e m by auto
    next
      assume "ev = (''__SYSTEM__'', ''FINISHED'', Str log_file)"
      then show ?thesis
        by (simp add: finished_def)
    qed
  qed
  from drain_effect[OF in_tree, of w'] obtain a'' w'' where
    dr: "drain (UIQueue w') a' w' = (None, a'', w'')"
    and dc: "done_items a'' + failed_items a'' =
             done_items a' + failed_items a' + length (filter terminal (UIQueue w'))"
            "total_items a'' = total_items a'"
    by blast
  have "length (filter terminal (UIQueue w')) = length (returned ?js rs)"
    using c4 by (metis length_map)
  then have c6: "\<exists>a'' w''. updatingUI a' w' = (None, a'', w'') \<and>
            done_items a'' + failed_items a'' = length (returned ?js rs) \<and>
            total_items a'' = length ?urls"
    using dr dc cnt by (auto simp: updatingUI_def)
  have c7: "(\<forall>x. fst (open_text lib log_file True x) = None) \<longrightarrow>
            length (returned ?js rs) = length ?urls"
    using run_jobs_all_return[OF _ lf j] len_js by auto
  show ?thesis
    using urls d c3 c4 c5 c6 c7 by blast
qed

theorem one_terminal_event_per_returned_job_witness:
  "finalizer (fst (fst (run_case stub rev (demo ''2'') world0))) =
     Some ''/d/CASE007/CASE007_report.html'' \<and>
   mset (rev (submitted (fst (fst (run_case stub rev (demo ''2'') world0))))) =
     mset (submitted (fst (fst (run_case stub rev (demo ''2'') world0)))) \<and>
   UIQueue world0 = [] \<and>
   map fst (filter terminal (UIQueue (snd (snd (run_case stub rev (demo ''2'') world0))))) =
     [''https://example/videoB'', ''https://example/videoA''] \<and>
   (\<exists>a'' w''. updatingUI (fst (snd (run_case stub rev (demo ''2'') world0)))
                 (snd (snd (run_case stub rev (demo ''2'') world0))) = (None, a'', w'') \<and>
      done_items a'' + failed_items a'' = 2 \<and> total_items a'' = 2)"
proof -
  let ?R = "run_case stub rev (demo ''2'') world0"
  let ?st = "fst (fst ?R)"
  have eq: "?R = ((?st, fst (snd (fst ?R)), snd (snd (fst ?R))), fst (snd ?R), snd (snd ?R))"
    by simp
  have fin: "finalizer ?st = Some ''/d/CASE007/CASE007_report.html''"
    by (simp add: demo_run)
  have pool: "mset (rev (submitted ?st)) = mset (submitted ?st)"
    by simp
  have empty: "UIQueue world0 = []"
    by (simp add: world0_def)
  have urls: "url_lines (urlText (demo ''2'')) = [''https://example/videoA'', ''https://example/videoB'']"
    by (simp add: run_defs)
  have two: "length (returned (rev (submitted ?st)) (fst (snd (fst ?R)))) = 2"
    "map fst (returned (rev (submitted ?st)) (fst (snd (fst ?R)))) =
       [''https://example/videoB'', ''https://example/videoA'']"
    by (simp_all add: demo_run returned_def)
  show ?thesis
    using fin pool empty one_terminal_event_per_returned_job [OF eq fin pool empty]
    unfolding two urls by (simp add: numeral_2_eq_2)
qed

text \<open>
  C2 as stated fails. When the report cannot be appended to, two submitted URLs leave no
  terminal event and no row, and done + failed stays 0 of 2. When a URL is entered
  twice, the second insertion into the tree raises: one job runs, and done + failed
  ends at 1 of 2.
\<close>

theorem terminal_event_missing:
  "map fst (submitted (fst (fst (run_case failing (\<lambda>js. js) (demo ''2'') world0)))) =
     [''https://example/videoA'', ''https://example/videoB''] \<and>
   fst (snd (fst (run_case failing (\<lambda>js. js) (demo ''2'') world0))) =
     [Some (PyExc ''Permission denied''), Some (PyExc ''Permission denied'')] \<and>
   filter terminal (UIQueue (snd (snd (run_case failing (\<lambda>js. js) (demo ''2'') world0)))) = [] \<and>
   written (snd (snd (run_case failing (\<lambda>js. js) (demo ''2'') world0)))
     ''/d/CASE007/CASE007_report.html'' =
     [report_header ''CASE007'' ''2026-02-14 12:00:00Z'' ''bytes'' ''bytes'' ''VERIFIED''] \<and>
   (let (r, a, w) = updatingUI (fst (snd (run_case failing (\<lambda>js. js) (demo ''2'') world0)))
                      (snd (snd (run_case failing (\<lambda>js. js) (demo ''2'') world0)))
    in r = None \<and> total_items a = 2 \<and> done_items a = 0 \<and> failed_items a = 0) \<and>
   raised (fst (fst (run_case stub (\<lambda>js. js) demo_twice world0))) =
     Some (PyExc ''Item https://example/videoA already exists'') \<and>
   map fst (filter terminal (UIQueue (snd (snd (run_case stub (\<lambda>js. js) demo_twice world0))))) =
     [''https://example/videoA''] \<and>
   (let (r, a, w) = updatingUI (fst (snd (run_case stub (\<lambda>js. js) demo_twice world0)))
                      (snd (snd (run_case stub (\<lambda>js. js) demo_twice world0)))
    in r = None \<and> total_items a = 2 \<and> done_items a = 1 \<and> failed_items a = 0)"
  by (simp add: run_defs ui_defs stub_def failing_def terminal_def written_def)

text \<open>
  C3. The engine is told to place the download in \<open>videoDir\<close>. For every file name
  without a slash, when the engine's path is that name inside \<open>videoDir\<close>, the final
  path is the engine's path: the move is from the file to itself, and both digests are
  taken at the same path.
\<close>

theorem relocation_is_self_move:
  assumes "CHR ''/'' \<notin> set name" and "temp_path = path_join videoDir name"
  shows "processVideo_verify lib videoDir temp_path x =
     (case sha256Hash lib temp_path x of
        (Inl e, x1) \<Rightarrow> (Inl e, x1)
      | (Inr hash1, x1) \<Rightarrow>
          (case move lib temp_path temp_path x1 of
             (Some e, x2) \<Rightarrow> (Inl e, x2)
           | (None, x2) \<Rightarrow>
               (case sha256Hash lib temp_path x2 of
                  (Inl e, x3) \<Rightarrow> (Inl e, x3)
                | (Inr hash2, x3) \<Rightarrow> (Inr (temp_path, hash1, hash2), x3))))"
proof -
  have e: "path_join videoDir (basename temp_path) = temp_path"
    using final_path_is_temp_path[OF assms(1), of videoDir] assms(2) by simp
  show ?thesis
    unfolding processVideo_verify_def Let_def e ..
qed

theorem relocation_is_self_move_witness:
  "CHR ''/'' \<notin> set ''C7_A.mp4'' \<and>
   prepare_filename stub (ydl_options ''/d/C7/Videos'' ''C7'' FNone)
     \<lparr>title = Some ''A'', ident = Some ''idA'', thumbnail = None\<rparr> [] =
     Inr (path_join ''/d/C7/Videos'' ''C7_A.mp4'') \<and>
   processVideo_verify stub ''/d/C7/Videos'' ''/d/C7/Videos/C7_A.mp4'' [] =
     (Inr (''/d/C7/Videos/C7_A.mp4'', ''content'', ''content''),
      [''read /d/C7/Videos/C7_A.mp4'',
       ''move /d/C7/Videos/C7_A.mp4 /d/C7/Videos/C7_A.mp4'',
       ''read /d/C7/Videos/C7_A.mp4''])"
proof -
  have n: "CHR ''/'' \<notin> set ''C7_A.mp4''"
    by simp
  have t: "''/d/C7/Videos/C7_A.mp4'' = path_join ''/d/C7/Videos'' ''C7_A.mp4''"
    by (simp add: path_join_def)
  show ?thesis
    using n relocation_is_self_move [OF n t, of stub "[]"]
    by (simp add: sha256Hash_def stub_def read_blocks.simps ydl_options_def path_join_def)
qed




text \<open>
  C5. Whatever is typed as worker count and whatever \<^verbatim>\<open>int\<close> makes of it, the count
  used lies between 1 and 32: a parsed value below 1 becomes 1, one above 32 becomes 32
  (and text that does not parse becomes 4). Whenever \<^verbatim>\<open>startCase\<close> submits a job, the
  pool has that count and its creation did not raise; the loop that submits the jobs
  starts from a state in which the pool exists and no job is submitted.
\<close>

theorem worker_count_clamped:
  "1 \<le> clamp_threads lib entry \<and> clamp_threads lib entry \<le> 32 \<and>
   (\<forall>n. int_of lib entry = Inr n \<longrightarrow>
      clamp_threads lib entry = (if n < 1 then 1 else if 32 < n then 32 else n)) \<and>
   (\<forall>st a' w'. startCase lib a w = (st, a', w') \<and> submitted st \<noteq> [] \<longrightarrow>
      executor a' = Some (clamp_threads lib (threadPicker a)) \<and>
      ThreadPoolExecutor (clamp_threads lib (threadPicker a)) =
        Inr (clamp_threads lib (threadPicker a)) \<and>
      (\<exists>a1 vd td lf r.
         executor a1 = Some (clamp_threads lib (threadPicker a)) \<and> futures a1 = [] \<and>
         submit_all (url_lines (urlText a)) vd td lf (strip (caseEntry a)) a1 = (r, a')))"
proof -
  have "\<forall>n. int_of lib entry = Inr n \<longrightarrow>
      clamp_threads lib entry = (if n < 1 then 1 else if 32 < n then 32 else n)"
    by (auto simp: clamp_threads_def)
  moreover have "ThreadPoolExecutor (clamp_threads lib (threadPicker a)) =
        Inr (clamp_threads lib (threadPicker a))"
    using clamp_threads_range[of lib "threadPicker a"] by (simp add: ThreadPoolExecutor_def)
  ultimately show ?thesis
    using clamp_threads_range[of lib entry] startCase_submitted[of lib a w] by blast
qed

theorem worker_count_clamped_witness:
  "int_of stub ''100'' = Inr 100 \<and> clamp_threads stub ''100'' = 32 \<and>
   int_of stub ''0'' = Inr 0 \<and> clamp_threads stub ''0'' = 1 \<and>
   int_of stub ''2'' = Inr 2 \<and> clamp_threads stub ''2'' = 2 \<and>
   clamp_threads stub ''four'' = 4 \<and>
   submitted (fst (startCase stub (demo ''100'') world0)) \<noteq> [] \<and>
   executor (fst (snd (startCase stub (demo ''100'') world0))) = Some 32"
proof -
  let ?S = "startCase stub (demo ''100'') world0"
  have i: "int_of stub ''100'' = Inr 100" "int_of stub ''0'' = Inr 0" "int_of stub ''2'' = Inr 2"
    by (simp_all add: stub_def)
  have eq: "?S = (fst ?S, fst (snd ?S), snd (snd ?S))"
    by simp
  have sub: "submitted (fst ?S) \<noteq> []"
    by (simp add: run_defs stub_def)
  have t: "threadPicker (demo ''100'') = ''100''"
    by (simp add: demo_def form_def)
  have four: "clamp_threads stub ''four'' = 4"
    by (simp add: clamp_threads_def stub_def)
  have c100: "clamp_threads stub ''100'' = 32"
    using i worker_count_clamped [of stub "''100''" "demo ''100''" world0] by simp
  have c0: "clamp_threads stub ''0'' = 1"
    using i worker_count_clamped [of stub "''0''" "demo ''100''" world0] by simp
  have c2: "clamp_threads stub ''2'' = 2"
    using i worker_count_clamped [of stub "''2''" "demo ''100''" world0] by simp
  have ex: "executor (fst (snd ?S)) = Some (clamp_threads stub ''100'')"
    using eq sub worker_count_clamped [of stub "''100''" "demo ''100''" world0]
    unfolding t by blast
  show ?thesis
    using i sub four c100 c0 c2 ex by simp
qed

text \<open>
  C7, as amended. Let the primary download succeed and the engine name a thumbnail.
  \<^verbatim>\<open>downloadThumbnail\<close> answers \<^verbatim>\<open>False\<close> exactly when the download or the save raised,
  and never raises itself. Whatever it answers and whatever state it leaves the outside
  world in: if the two digests, the move, the link and the write of the row then
  succeed, the job returns, puts exactly one terminal event (DONE with the digest of
  the video when the digests agree), and writes one row, whose status is \<^verbatim>\<open>VERIFIED\<close> or
  \<^verbatim>\<open>HASH_MISMATCH\<close>. The row is built
  from the stamp, the name of the thumbnail file, the link, the title, the name of the
  final file, the URL, the status and the digest of the video, and from nothing else.
  No digest of the thumbnail is taken: the part of the job up to and including the
  thumbnail is the same for every way of reading files and of hashing.
\<close>

theorem thumbnail_failure_isolated:
  assumes "extract_info lib (ydl_options videoDir case_id (ffmpegPath lib (outside w))) url (outside w) =
             ((ds, Inr meta), x1)"
    and "prepare_filename lib (ydl_options videoDir case_id (ffmpegPath lib (outside w))) meta x1 =
           Inr temp_path"
    and "thumbnail meta = Some u" and "u \<noteq> []"
    and "videoTitle = (case title meta of None \<Rightarrow> ''UNKNOWN_TITLE'' | Some t \<Rightarrow> t)"
    and "thumbFilename = (case ident meta of None \<Rightarrow> ''unknownid'' | Some i \<Rightarrow> i) @ ''_thumbnail.jpg''"
    and "downloadThumbnail lib u (path_join thumbDir thumbFilename) x1 = (ok, x2)"
    and "processVideo_verify lib videoDir temp_path x2 = (Inr (finalPath, hash1, hash2), x3)"
    and "toRelHref lib finalPath (dirname logFile) x3 = Inr video_href"
    and "open_text lib logFile True x3 = (None, x4)"
  shows "(ok \<longleftrightarrow>
            (\<exists>data x'. urlopen_read lib u x1 = (Inr data, x') \<and>
                       fst (write_bytes lib (path_join thumbDir thumbFilename) data x') = None)) \<and>
         (\<exists>stamp w' ev. processVideo lib url videoDir thumbDir logFile case_id w = (None, w') \<and>
            last (UIQueue w') = ev \<and> fst ev = url \<and> terminal ev \<and>
            filter terminal (UIQueue w') = filter terminal (UIQueue w) @ [ev] \<and>
            (hash1 = hash2 \<longrightarrow> ev = (url, ''DONE'', Str hash2)) \<and>
            files w' logFile =
              Some (written w logFile @
                    [video_row stamp thumbFilename video_href videoTitle (basename finalPath) url
                       (if hash1 = hash2 then ''verified'' else ''failed'')
                       (if hash1 = hash2 then ''VERIFIED'' else ''HASH_MISMATCH'') hash2])) \<and>
         processVideo_fetch (lib\<lparr>read_bytes := r, sha256_hexdigest := g\<rparr>) url videoDir thumbDir
           case_id w =
         processVideo_fetch lib url videoDir thumbDir case_id w"
proof -
  have nd: "processVideo_fetch (lib\<lparr>read_bytes := r, sha256_hexdigest := g\<rparr>) url videoDir thumbDir
              case_id w =
            processVideo_fetch lib url videoDir thumbDir case_id w"
  proof -
    let ?lib' = "lib\<lparr>read_bytes := r, sha256_hexdigest := g\<rparr>"
    have h: "run_hooks ?lib' = run_hooks lib"
      by (intro ext) (rule run_hooks_libs, simp)
    have p: "ffmpegPath ?lib' = ffmpegPath lib"
      by (intro ext) (simp add: ffmpegPath_def)
    have d: "downloadThumbnail ?lib' = downloadThumbnail lib"
      by (intro ext) (simp add: downloadThumbnail_def split: prod.splits sum.splits)
    have e: "extract_info ?lib' = extract_info lib" "prepare_filename ?lib' = prepare_filename lib"
      by simp_all
    show ?thesis
      unfolding processVideo_fetch_def h p d e ..
  qed
  have ok: "ok \<longleftrightarrow>
            (\<exists>data x'. urlopen_read lib u x1 = (Inr data, x') \<and>
                       fst (write_bytes lib (path_join thumbDir thumbFilename) data x') = None)"
    using downloadThumbnail_ok[of lib u "path_join thumbDir thumbFilename" x1] assms(7) by simp
  obtain evs where h: "run_hooks lib url ds (UIQueue w) = (None, UIQueue w @ evs)"
     and p: "\<forall>ev \<in> set evs. fst ev = url \<and> progress ev"
    using run_hooks_queue by blast
  let ?w1 = "w\<lparr>outside := x2, UIQueue := UIQueue w @ evs\<rparr>"
  have f: "processVideo_fetch lib url videoDir thumbDir case_id w =
             (Inr (videoTitle, thumbFilename, temp_path), ?w1)"
    using assms(1-7) h by (simp add: processVideo_fetch_def Let_def)
  have ft: "filter terminal evs = []"
    using p by (rule filter_terminal_progress)
  obtain stamp x5 where st: "utcStamp lib x4 = (stamp, x5)"
    by (metis prod.exhaust)
  let ?row = "video_row stamp thumbFilename video_href videoTitle (basename finalPath) url
                       (if hash1 = hash2 then ''verified'' else ''failed'')
                       (if hash1 = hash2 then ''VERIFIED'' else ''HASH_MISMATCH'') hash2"
  let ?w' = "?w1\<lparr>outside := x5, files := (files w)(logFile \<mapsto> written w logFile @ [?row]),
                  UIQueue := UIQueue w @ evs @ [(url, ''DONE'', Str hash2)]\<rparr>"
  have t: "processVideo_try lib url videoDir thumbDir logFile case_id w = (None, ?w')"
    using f assms(8-10) st
    by (simp add: processVideo_try_def write_log_def written_def Let_def)
  have r: "processVideo lib url videoDir thumbDir logFile case_id w = (None, ?w')"
    using t by (simp add: processVideo_def)
  let ?ev = "(url, ''DONE'', Str hash2)"
  have q: "last (UIQueue ?w') = ?ev" "fst ?ev = url" "terminal ?ev"
    "filter terminal (UIQueue ?w') = filter terminal (UIQueue w) @ [?ev]"
    "files ?w' logFile = Some (written w logFile @ [?row])"
    using ft by (simp_all add: terminal_def)
  have "\<exists>stamp w' ev. processVideo lib url videoDir thumbDir logFile case_id w = (None, w') \<and>
            last (UIQueue w') = ev \<and> fst ev = url \<and> terminal ev \<and>
            filter terminal (UIQueue w') = filter terminal (UIQueue w) @ [ev] \<and>
            (hash1 = hash2 \<longrightarrow> ev = (url, ''DONE'', Str hash2)) \<and>
            files w' logFile =
              Some (written w logFile @
                    [video_row stamp thumbFilename video_href videoTitle (basename finalPath) url
                       (if hash1 = hash2 then ''verified'' else ''failed'')
                       (if hash1 = hash2 then ''VERIFIED'' else ''HASH_MISMATCH'') hash2])"
    apply (rule exI[of _ stamp])
    apply (rule exI[of _ ?w'])
    apply (rule exI[of _ ?ev])
    using r q apply simp
    done
  then show ?thesis
    using ok nd by simp
qed

theorem thumbnail_failure_isolated_witness:
  "downloadThumbnail no_thumbnail ''https://example/t.jpg''
     (path_join ''/d/C7/Thumbnails'' ''idA_thumbnail.jpg'') [] = (False, []) \<and>
   processVideo_verify no_thumbnail ''/d/C7/Videos'' ''/d/C7/Videos/C7_A.mp4'' [] =
     (Inr (''/d/C7/Videos/C7_A.mp4'', ''content'', ''content''),
      [''read /d/C7/Videos/C7_A.mp4'', ''move /d/C7/Videos/C7_A.mp4 /d/C7/Videos/C7_A.mp4'',
       ''read /d/C7/Videos/C7_A.mp4'']) \<and>
   (\<exists>stamp w'. processVideo no_thumbnail ''u'' ''/d/C7/Videos'' ''/d/C7/Thumbnails''
                   ''/d/C7/C7_report.html'' ''C7'' world0 = (None, w') \<and>
      last (UIQueue w') = (''u'', ''DONE'', Str ''content'') \<and>
      files w' ''/d/C7/C7_report.html'' =
        Some [video_row stamp ''idA_thumbnail.jpg'' ''Videos/C7_A.mp4'' ''A'' ''C7_A.mp4'' ''u''
                ''verified'' ''VERIFIED'' ''content''])"
proof -
  let ?ds = "[[''status'' \<mapsto> ''downloading'', ''_percent_str'' \<mapsto> '' 42.5%''],
              [''status'' \<mapsto> ''downloading'', ''_percent_str'' \<mapsto> ''n/a''],
              [''status'' \<mapsto> ''finished'']]"
  let ?meta = "\<lparr>title = Some ''A'', ident = Some ''idA'', thumbnail = Some ''https://example/t.jpg''\<rparr>"
  let ?opts = "ydl_options ''/d/C7/Videos'' ''C7'' (ffmpegPath no_thumbnail (outside world0))"
  let ?x3 = "[''read /d/C7/Videos/C7_A.mp4'', ''move /d/C7/Videos/C7_A.mp4 /d/C7/Videos/C7_A.mp4'',
       ''read /d/C7/Videos/C7_A.mp4'']"
  have e: "extract_info no_thumbnail ?opts ''u'' (outside world0) = ((?ds, Inr ?meta), [])"
    by (simp add: no_thumbnail_def stub_def world0_def)
  have n: "prepare_filename no_thumbnail ?opts ?meta [] = Inr ''/d/C7/Videos/C7_A.mp4''"
    by (simp add: no_thumbnail_def stub_def ydl_options_def path_join_def)
  have th: "thumbnail ?meta = Some ''https://example/t.jpg''" "''https://example/t.jpg'' \<noteq> []"
    by simp_all
  have ti: "''A'' = (case title ?meta of None \<Rightarrow> ''UNKNOWN_TITLE'' | Some t \<Rightarrow> t)"
    by simp
  have tf: "''idA_thumbnail.jpg'' = (case ident ?meta of None \<Rightarrow> ''unknownid'' | Some i \<Rightarrow> i) @ ''_thumbnail.jpg''"
    by simp
  have d: "downloadThumbnail no_thumbnail ''https://example/t.jpg''
             (path_join ''/d/C7/Thumbnails'' ''idA_thumbnail.jpg'') [] = (False, [])"
    by (simp add: downloadThumbnail_def no_thumbnail_def)
  have v: "processVideo_verify no_thumbnail ''/d/C7/Videos'' ''/d/C7/Videos/C7_A.mp4'' [] =
     (Inr (''/d/C7/Videos/C7_A.mp4'', ''content'', ''content''), ?x3)"
    by (simp add: processVideo_verify_def sha256Hash_def no_thumbnail_def stub_def
        path_join_def basename_def read_blocks.simps Let_def)
  have h: "toRelHref no_thumbnail ''/d/C7/Videos/C7_A.mp4'' (dirname ''/d/C7/C7_report.html'') ?x3 =
           Inr ''Videos/C7_A.mp4''"
    by (simp add: toRelHref_def no_thumbnail_def stub_def basename_def replace_char_def)
  have o: "open_text no_thumbnail ''/d/C7/C7_report.html'' True ?x3 = (None, ?x3)"
    by (simp add: no_thumbnail_def stub_def)
  have c: "\<exists>stamp w'. processVideo no_thumbnail ''u'' ''/d/C7/Videos'' ''/d/C7/Thumbnails''
                   ''/d/C7/C7_report.html'' ''C7'' world0 = (None, w') \<and>
      last (UIQueue w') = (''u'', ''DONE'', Str ''content'') \<and>
      files w' ''/d/C7/C7_report.html'' =
        Some [video_row stamp ''idA_thumbnail.jpg'' ''Videos/C7_A.mp4'' ''A'' ''C7_A.mp4'' ''u''
                ''verified'' ''VERIFIED'' ''content'']"
    using thumbnail_failure_isolated [OF e n th ti tf d v h o,
            where r = "read_bytes no_thumbnail" and g = "sha256_hexdigest no_thumbnail"]
    by (auto simp: world0_def written_def basename_def)
  show ?thesis
    using d v c by simp
qed

text \<open>
  C7 as stated fails in its last part: when the download of the thumbnail fails, the
  row is the row of a job whose thumbnail was saved. Nothing in it marks the thumbnail
  as unavailable, and it still refers to the image file.
\<close>

theorem thumbnail_failure_not_recorded:
  "fst (downloadThumbnail no_thumbnail ''https://example/t.jpg''
          ''/d/C7/Thumbnails/idA_thumbnail.jpg'' []) = False \<and>
   files (snd (processVideo no_thumbnail ''u'' ''/d/C7/Videos'' ''/d/C7/Thumbnails''
                 ''/d/C7/C7_report.html'' ''C7'' world0)) ''/d/C7/C7_report.html'' =
     Some [video_row ''2026-02-14 12:00:00Z'' ''idA_thumbnail.jpg'' ''Videos/C7_A.mp4'' ''A''
             ''C7_A.mp4'' ''u'' ''verified'' ''VERIFIED'' ''content''] \<and>
   files (snd (processVideo stub ''u'' ''/d/C7/Videos'' ''/d/C7/Thumbnails''
                 ''/d/C7/C7_report.html'' ''C7'' world0)) ''/d/C7/C7_report.html'' =
     Some [video_row ''2026-02-14 12:00:00Z'' ''idA_thumbnail.jpg'' ''Videos/C7_A.mp4'' ''A''
             ''C7_A.mp4'' ''u'' ''verified'' ''VERIFIED'' ''content'']"
  by (simp add: processVideo_def processVideo_try_def processVideo_fetch_def processVideo_verify_def
      sha256Hash_def toRelHref_def write_log_def utcStamp_def downloadThumbnail_def
      no_thumbnail_def stub_def world0_def hook_def strip_def remove_char_def
      replace_char_def isspace_def Let_def path_join_def basename_def dirname_def
      read_blocks.simps ydl_options_def ffmpegPath_def)

text \<open>
  C8, as amended. If the case identifier is blank, or no URL is entered, or the
  destination is blank, \<^verbatim>\<open>startCase\<close> shows an error and returns: nothing is submitted, no
  settings are saved, no directory is made, no report is written and the outside world
  is not touched. A destination that is filled in is not checked. If \<^verbatim>\<open>os.makedirs\<close>
  then raises, on the videos directory or on the thumbnails directory, \<^verbatim>\<open>startCase\<close>
  ends with that exception, with nothing submitted and no report written; the settings
  are saved by then, and the directories that the calls did make stay made.
\<close>

theorem invalid_configuration_rejected:
  "(strip (caseEntry a) = [] \<or> url_lines (urlText a) = [] \<or> strip (destinationEntry a) = [] \<longrightarrow>
      (\<exists>msg. startCase lib a w =
         (\<lparr>raised = None, submitted = [], finalizer = None\<rparr>, a, showerror ''Error'' msg w) \<and>
         files (showerror ''Error'' msg w) = files w \<and>
         dirs (showerror ''Error'' msg w) = dirs w \<and>
         settings (showerror ''Error'' msg w) = settings w \<and>
         outside (showerror ''Error'' msg w) = outside w \<and>
         UIQueue (showerror ''Error'' msg w) = UIQueue w)) \<and>
   (strip (caseEntry a) \<noteq> [] \<and> url_lines (urlText a) \<noteq> [] \<and> strip (destinationEntry a) \<noteq> [] \<and>
    saveSetting lib (strip (caseEntry a), clamp_threads lib (threadPicker a),
                     strip (destinationEntry a)) w = (None, w1) \<and>
    makedirs lib (path_join (path_join (strip (destinationEntry a)) (strip (caseEntry a))) ''Videos'')
      (outside w1) = ((Some e, made), x2) \<longrightarrow>
      startCase lib a w =
        (\<lparr>raised = Some e, submitted = [], finalizer = None\<rparr>, a,
         w1\<lparr>outside := x2, dirs := dirs w @ made\<rparr>) \<and>
      files w1 = files w \<and> UIQueue w1 = UIQueue w) \<and>
   (strip (caseEntry a) \<noteq> [] \<and> url_lines (urlText a) \<noteq> [] \<and> strip (destinationEntry a) \<noteq> [] \<and>
    saveSetting lib (strip (caseEntry a), clamp_threads lib (threadPicker a),
                     strip (destinationEntry a)) w = (None, w1) \<and>
    makedirs lib (path_join (path_join (strip (destinationEntry a)) (strip (caseEntry a))) ''Videos'')
      (outside w1) = ((None, made1), y2) \<and>
    makedirs lib (path_join (path_join (strip (destinationEntry a)) (strip (caseEntry a)))
                    ''Thumbnails'') y2 = ((Some e', made2), y3) \<longrightarrow>
      startCase lib a w =
        (\<lparr>raised = Some e', submitted = [], finalizer = None\<rparr>, a,
         w1\<lparr>outside := y3, dirs := dirs w @ made1 @ made2\<rparr>) \<and>
      files w1 = files w \<and> UIQueue w1 = UIQueue w)"
proof -
  let ?valid = "strip (caseEntry a) \<noteq> [] \<and> url_lines (urlText a) \<noteq> [] \<and>
                strip (destinationEntry a) \<noteq> []"
  let ?save = "saveSetting lib (strip (caseEntry a), clamp_threads lib (threadPicker a),
                     strip (destinationEntry a)) w = (None, w1)"
  let ?vd = "path_join (path_join (strip (destinationEntry a)) (strip (caseEntry a))) ''Videos''"
  let ?td = "path_join (path_join (strip (destinationEntry a)) (strip (caseEntry a))) ''Thumbnails''"
  have a: "strip (caseEntry a) = [] \<or> url_lines (urlText a) = [] \<or> strip (destinationEntry a) = [] \<longrightarrow>
      (\<exists>msg. startCase lib a w =
         (\<lparr>raised = None, submitted = [], finalizer = None\<rparr>, a, showerror ''Error'' msg w))"
    by (auto simp: startCase_def Let_def)
  have b: "files (showerror ''Error'' msg w) = files w \<and>
         dirs (showerror ''Error'' msg w) = dirs w \<and>
         settings (showerror ''Error'' msg w) = settings w \<and>
         outside (showerror ''Error'' msg w) = outside w \<and>
         UIQueue (showerror ''Error'' msg w) = UIQueue w" for msg
    by (simp add: showerror_def)
  have c: "?valid \<and> ?save \<and> makedirs lib ?vd (outside w1) = ((Some e, made), x2) \<longrightarrow>
      startCase lib a w =
        (\<lparr>raised = Some e, submitted = [], finalizer = None\<rparr>, a,
         w1\<lparr>outside := x2, dirs := dirs w @ made\<rparr>) \<and>
      files w1 = files w \<and> UIQueue w1 = UIQueue w"
  proof (intro impI, elim conjE)
    assume v: "strip (caseEntry a) \<noteq> []" "url_lines (urlText a) \<noteq> []" "strip (destinationEntry a) \<noteq> []"
      and s: ?save
      and m: "makedirs lib ?vd (outside w1) = ((Some e, made), x2)"
    have k: "files w1 = files w" "UIQueue w1 = UIQueue w" "dirs w1 = dirs w"
      using saveSetting_effect[OF s] by simp_all
    have "startCase lib a w =
        (\<lparr>raised = Some e, submitted = [], finalizer = None\<rparr>, a,
         w1\<lparr>outside := x2, dirs := dirs w1 @ made\<rparr>)"
      using v s m by (simp add: startCase_def Let_def)
    then show "startCase lib a w =
        (\<lparr>raised = Some e, submitted = [], finalizer = None\<rparr>, a,
         w1\<lparr>outside := x2, dirs := dirs w @ made\<rparr>) \<and>
      files w1 = files w \<and> UIQueue w1 = UIQueue w"
      using k by simp
  qed
  have d: "?valid \<and> ?save \<and> makedirs lib ?vd (outside w1) = ((None, made1), y2) \<and>
           makedirs lib ?td y2 = ((Some e', made2), y3) \<longrightarrow>
      startCase lib a w =
        (\<lparr>raised = Some e', submitted = [], finalizer = None\<rparr>, a,
         w1\<lparr>outside := y3, dirs := dirs w @ made1 @ made2\<rparr>) \<and>
      files w1 = files w \<and> UIQueue w1 = UIQueue w"
  proof (intro impI, elim conjE)
    assume v: "strip (caseEntry a) \<noteq> []" "url_lines (urlText a) \<noteq> []" "strip (destinationEntry a) \<noteq> []"
      and s: ?save
      and m1: "makedirs lib ?vd (outside w1) = ((None, made1), y2)"
      and m2: "makedirs lib ?td y2 = ((Some e', made2), y3)"
    have k: "files w1 = files w" "UIQueue w1 = UIQueue w" "dirs w1 = dirs w"
      using saveSetting_effect[OF s] by simp_all
    have "startCase lib a w =
        (\<lparr>raised = Some e', submitted = [], finalizer = None\<rparr>, a,
         w1\<lparr>outside := y3, dirs := dirs w1 @ made1 @ made2\<rparr>)"
      using v s m1 m2 by (simp add: startCase_def Let_def)
    then show "startCase lib a w =
        (\<lparr>raised = Some e', submitted = [], finalizer = None\<rparr>, a,
         w1\<lparr>outside := y3, dirs := dirs w @ made1 @ made2\<rparr>) \<and>
      files w1 = files w \<and> UIQueue w1 = UIQueue w"
      using k by simp
  qed
  show ?thesis
    using a b c d by blast
qed

theorem invalid_configuration_rejected_witness:
  "strip (caseEntry (form ''  '' ''2'' ''https://example/videoA'' ''/d'')) = [] \<and>
   startCase stub (form ''  '' ''2'' ''https://example/videoA'' ''/d'') world0 =
     (\<lparr>raised = None, submitted = [], finalizer = None\<rparr>,
      form ''  '' ''2'' ''https://example/videoA'' ''/d'',
      showerror ''Error'' ''Case Number is required.'' world0) \<and>
   url_lines (urlText (form ''CASE007'' ''2'' '' \<newline>  \<newline>'' ''/d'')) = [] \<and>
   startCase stub (form ''CASE007'' ''2'' '' \<newline>  \<newline>'' ''/d'') world0 =
     (\<lparr>raised = None, submitted = [], finalizer = None\<rparr>,
      form ''CASE007'' ''2'' '' \<newline>  \<newline>'' ''/d'',
      showerror ''Error'' ''No URLs entered.'' world0) \<and>
   strip (destinationEntry (form ''CASE007'' ''2'' ''https://example/videoA'' '' '')) = [] \<and>
   startCase stub (form ''CASE007'' ''2'' ''https://example/videoA'' '' '') world0 =
     (\<lparr>raised = None, submitted = [], finalizer = None\<rparr>,
      form ''CASE007'' ''2'' ''https://example/videoA'' '' '',
      showerror ''Error'' ''Destination folder is required.'' world0) \<and>
   saveSetting readonly (''CASE007'', 2, ''/d'') world0 =
     (None, world0\<lparr>settings := Some (''CASE007'', 2, ''/d'')\<rparr>) \<and>
   makedirs readonly ''/d/CASE007/Videos'' [] = ((Some (PyExc ''Read-only file system''), []), []) \<and>
   startCase readonly (demo ''2'') world0 =
     (\<lparr>raised = Some (PyExc ''Read-only file system''), submitted = [], finalizer = None\<rparr>,
      demo ''2'', world0\<lparr>settings := Some (''CASE007'', 2, ''/d'')\<rparr>) \<and>
   makedirs thumbs_blocked ''/d/CASE007/Videos'' [] =
     ((None, [''/d/CASE007'', ''/d/CASE007/Videos'']), [''makedirs /d/CASE007/Videos'']) \<and>
   makedirs thumbs_blocked ''/d/CASE007/Thumbnails'' [''makedirs /d/CASE007/Videos''] =
     ((Some (PyExc ''File exists''), []),
      [''makedirs /d/CASE007/Videos'', ''makedirs /d/CASE007/Thumbnails'']) \<and>
   startCase thumbs_blocked (demo ''2'') world0 =
     (\<lparr>raised = Some (PyExc ''File exists''), submitted = [], finalizer = None\<rparr>,
      demo ''2'',
      world0\<lparr>outside := [''makedirs /d/CASE007/Videos'', ''makedirs /d/CASE007/Thumbnails''],
             settings := Some (''CASE007'', 2, ''/d''),
             dirs := [''/d/CASE007'', ''/d/CASE007/Videos'']\<rparr>)"
  using invalid_configuration_rejected
          [of "form ''  '' ''2'' ''https://example/videoA'' ''/d''" stub world0]
        invalid_configuration_rejected
          [of "form ''CASE007'' ''2'' '' \<newline>  \<newline>'' ''/d''" stub world0]
        invalid_configuration_rejected
          [of "form ''CASE007'' ''2'' ''https://example/videoA'' '' ''" stub world0]
        invalid_configuration_rejected
          [of "demo ''2''" readonly world0 "world0\<lparr>settings := Some (''CASE007'', 2, ''/d'')\<rparr>"
              "PyExc ''Read-only file system''" "[]" "[]"]
        invalid_configuration_rejected
          [where a = "demo ''2''" and lib = thumbs_blocked and w = world0
             and ?w1.0 = "world0\<lparr>settings := Some (''CASE007'', 2, ''/d'')\<rparr>"
             and e' = "PyExc ''File exists''"
             and ?made1.0 = "[''/d/CASE007'', ''/d/CASE007/Videos'']" and ?made2.0 = "[]"
             and ?y2.0 = "[''makedirs /d/CASE007/Videos'']"
             and ?y3.0 = "[''makedirs /d/CASE007/Videos'', ''makedirs /d/CASE007/Thumbnails'']"]
  by (simp add: run_defs stub_def readonly_def thumbs_blocked_def)

text \<open>
  C8 as stated fails for a destination that is filled in and cannot be used. When the
  thumbnails directory cannot be made, the run is rejected with nothing submitted and
  no report, but only after the settings are saved and the case directory and the
  videos directory are made.
\<close>

theorem directory_made_before_rejection:
  "strip (caseEntry (demo ''2'')) = ''CASE007'' \<and>
   url_lines (urlText (demo ''2'')) = [''https://example/videoA'', ''https://example/videoB''] \<and>
   strip (destinationEntry (demo ''2'')) = ''/d'' \<and>
   raised (fst (startCase thumbs_blocked (demo ''2'') world0)) = Some (PyExc ''File exists'') \<and>
   submitted (fst (startCase thumbs_blocked (demo ''2'') world0)) = [] \<and>
   finalizer (fst (startCase thumbs_blocked (demo ''2'') world0)) = None \<and>
   outside (snd (snd (startCase thumbs_blocked (demo ''2'') world0))) =
     [''makedirs /d/CASE007/Videos'', ''makedirs /d/CASE007/Thumbnails''] \<and>
   dirs (snd (snd (startCase thumbs_blocked (demo ''2'') world0))) =
     [''/d/CASE007'', ''/d/CASE007/Videos''] \<and>
   settings (snd (snd (startCase thumbs_blocked (demo ''2'') world0))) =
     Some (''CASE007'', 2, ''/d'')"
  by (simp add: run_defs stub_def thumbs_blocked_def)

text \<open>
  C9. For every dictionary the fetch engine delivers and every behaviour of \<^verbatim>\<open>float\<close>,
  the progress hook does not raise. A callback with status "downloading" adds exactly
  one PROGRESS event to the queue, whose percent is the parsed value and is 0 when
  \<^verbatim>\<open>float\<close> raises; a callback with status "finished" adds exactly one MERGING event at
  99 percent.
\<close>

theorem hook_never_raises:
  "\<exists>q'. hook lib url d q = Inr q' \<and>
     (d ''status'' = Some ''downloading'' \<longrightarrow>
        (\<exists>p. q' = q @ [(url, ''PROGRESS'', Num p)] \<and>
             (\<forall>s e. d ''_percent_str'' = Some s \<and>
                    float_of lib (strip (remove_char CHR ''%'' s)) = Inl e \<longrightarrow> p = Finite 0) \<and>
             (\<forall>s v. d ''_percent_str'' = Some s \<and>
                    float_of lib (strip (remove_char CHR ''%'' s)) = Inr v \<longrightarrow> p = v))) \<and>
     (d ''status'' = Some ''finished'' \<longrightarrow> q' = q @ [(url, ''MERGING'', Num (Finite 99))])"
  by (auto simp: hook_def Let_def split: option.splits sum.splits)

theorem hook_never_raises_witness:
  "hook stub ''u'' [''status'' \<mapsto> ''downloading'', ''_percent_str'' \<mapsto> ''n/a''] [] =
     Inr [(''u'', ''PROGRESS'', Num (Finite 0))] \<and>
   hook stub ''u'' [''status'' \<mapsto> ''downloading'', ''_percent_str'' \<mapsto> '' 42.5%''] [] =
     Inr [(''u'', ''PROGRESS'', Num (Finite 42.5))] \<and>
   hook stub ''u'' [''status'' \<mapsto> ''finished''] [] = Inr [(''u'', ''MERGING'', Num (Finite 99))]"
  using hook_never_raises [of stub "''u''"
          "[''status'' \<mapsto> ''downloading'', ''_percent_str'' \<mapsto> ''n/a'']" "[]"]
        hook_never_raises [of stub "''u''"
          "[''status'' \<mapsto> ''downloading'', ''_percent_str'' \<mapsto> '' 42.5%'']" "[]"]
        hook_never_raises [of stub "''u''" "[''status'' \<mapsto> ''finished'']" "[]"]
  by (simp add: stub_def strip_def remove_char_def isspace_def)

text \<open>
  C10. Let the \<^verbatim>\<open>try\<close> block of a job end with an exception. If opening the report for
  the FAILED row raises, that exception leaves \<^verbatim>\<open>processVideo\<close>, nothing is written, and
  the queue holds only progress events of the job: no terminal event. If it does not
  raise, the FAILED row is appended first and the FAILED event is put after it.
\<close>

theorem failed_row_write_raises:
  assumes "processVideo_try lib url videoDir thumbDir logFile case_id w = (Some e, w1)"
  shows "(\<forall>e' x2. open_text lib logFile True (outside w1) = (Some e', x2) \<longrightarrow>
            processVideo lib url videoDir thumbDir logFile case_id w = (Some e', w1\<lparr>outside := x2\<rparr>) \<and>
            files w1 = files w \<and>
            (\<exists>pre. UIQueue w1 = UIQueue w @ pre \<and> (\<forall>ev \<in> set pre. progress ev \<and> \<not> terminal ev))) \<and>
         (\<forall>x2. open_text lib logFile True (outside w1) = (None, x2) \<longrightarrow>
            (\<exists>w' stamp. processVideo lib url videoDir thumbDir logFile case_id w = (None, w') \<and>
               files w' logFile = Some (written w logFile @ [failed_row stamp url (str e)]) \<and>
               UIQueue w' = UIQueue w1 @ [(url, ''FAILED'', Str (str e))]))"
proof -
  from try_effect[OF assms] obtain pre where
    pre: "\<forall>ev \<in> set pre. fst ev = url \<and> progress ev"
    and q: "UIQueue w1 = UIQueue w @ pre" and f: "files w1 = files w"
    by auto
  have wr: "written w1 logFile = written w logFile"
    using f by (simp add: written_def)
  have a: "\<forall>ev \<in> set pre. progress ev \<and> \<not> terminal ev"
    using pre progress_not_terminal by blast
  show ?thesis
    using assms q f a wr
    by (auto simp: processVideo_def write_log_def Let_def written_def split: prod.splits option.splits)
qed

theorem failed_row_write_raises_witness:
  "processVideo_try failing ''u'' ''/d/C7/Videos'' ''/d/C7/Thumbnails'' ''/d/C7/C7_report.html'' ''C7'' world0 =
     (Some (PyExc ''ERROR: Video unavailable''),
      world0\<lparr>UIQueue := [(''u'', ''PROGRESS'', Num (Finite 42.5))]\<rparr>) \<and>
   open_text failing ''/d/C7/C7_report.html'' True [] = (Some (PyExc ''Permission denied''), []) \<and>
   processVideo failing ''u'' ''/d/C7/Videos'' ''/d/C7/Thumbnails'' ''/d/C7/C7_report.html'' ''C7'' world0 =
     (Some (PyExc ''Permission denied''), world0\<lparr>UIQueue := [(''u'', ''PROGRESS'', Num (Finite 42.5))]\<rparr>)"
proof -
  have t: "processVideo_try failing ''u'' ''/d/C7/Videos'' ''/d/C7/Thumbnails'' ''/d/C7/C7_report.html'' ''C7'' world0 =
     (Some (PyExc ''ERROR: Video unavailable''),
      world0\<lparr>UIQueue := [(''u'', ''PROGRESS'', Num (Finite 42.5))]\<rparr>)"
    by (simp add: processVideo_try_def processVideo_fetch_def failing_def stub_def world0_def
        hook_def strip_def remove_char_def isspace_def Let_def)
  have o: "open_text failing ''/d/C7/C7_report.html'' True [] = (Some (PyExc ''Permission denied''), [])"
    by (simp add: failing_def stub_def)
  show ?thesis
    using t o failed_row_write_raises [OF t]
    by (simp add: world0_def)
qed

end
